theory Spec2Isabelle
  imports Main "HOL-Library.Sublist"
begin

section \<open>Python values and exceptions\<close>

text \<open>
  The two scripts are Python. Strings are lists of characters, the exceptions that the
  code can raise are values of \<open>py_error\<close>, and a call that may raise returns
  \<open>py_error + 'a\<close> with \<open>Inl\<close> for the exception. \<open>OSError\<close> stands for the whole family
  raised by the file system (FileNotFoundError, IsADirectoryError, NotADirectoryError,
  FileExistsError, PermissionError), \<open>NetworkError\<close> for whatever an HTTPS connection
  raises, \<open>URLError\<close> for a transfer that breaks other than by an HTTP error status,
  \<open>RecursionError\<close> for the interpreter's refusal of a call nested deeper than its
  recursion limit.
\<close>

datatype py_error =
    TypeError | KeyError | AttributeError | ValueError | JSONDecodeError
  | OSError | BadZipFile | NetworkError | HTTPError int | URLError
  | RecursionError | CalledProcessError int

text \<open>
  What \<open>json.loads\<close> returns. An object is the list of the items of the Python dict
  (keys distinct); \<open>JNull\<close> is Python's \<open>None\<close>. Numbers are integers here.
\<close>

datatype json =
    JNull | JBool bool | JNum int | JStr string
  | JArr "json list" | JObj "(string \<times> json) list"

text \<open>\<open>v[key]\<close> for a string key: only a dict supports it.\<close>

fun getitem :: "json \<Rightarrow> string \<Rightarrow> py_error + json" where
  "getitem (JObj kvs) k = (case map_of kvs k of None \<Rightarrow> Inl KeyError | Some v \<Rightarrow> Inr v)"
| "getitem _ k = Inl TypeError"

text \<open>\<open>for x in v\<close>: a list gives its elements, a dict its keys, a string its characters.\<close>

fun iter_json :: "json \<Rightarrow> py_error + json list" where
  "iter_json (JArr xs) = Inr xs"
| "iter_json (JObj kvs) = Inr (map (\<lambda>kv. JStr (fst kv)) kvs)"
| "iter_json (JStr s) = Inr (map (\<lambda>c. JStr [c]) s)"
| "iter_json _ = Inl TypeError"

text \<open>Python truthiness, as \<open>if not zip_url\<close> tests it.\<close>

fun truthy :: "json \<Rightarrow> bool" where
  "truthy JNull = False"
| "truthy (JBool b) = b"
| "truthy (JNum n) = (n \<noteq> 0)"
| "truthy (JStr s) = (s \<noteq> [])"
| "truthy (JArr xs) = (xs \<noteq> [])"
| "truthy (JObj kvs) = (kvs \<noteq> [])"

section \<open>urllib.parse.urlsplit\<close>

text \<open>
  The scripts split every URL with the standard library's \<open>urlsplit\<close> and use the
  \<open>netloc\<close> and \<open>path\<close> fields of the result. The model follows CPython 3.11's function
  step by step: strip leading control characters and spaces, delete tab, CR and LF, split
  off a scheme, a network location after \<open>//\<close>, the fragment after the first \<open>#\<close> and the
  query after the first \<open>?\<close>. Of the validity checks that raise ValueError only the test
  for an unbalanced square bracket in the network location is modelled (the checks of the
  text between balanced brackets and of non-ASCII hosts are not).
\<close>

record url_parts =
  scheme :: string
  netloc :: string
  path :: string
  query :: string
  fragment :: string

definition scheme_chars :: string where
  "scheme_chars = ''abcdefghijklmnopqrstuvwxyzABCDEFGHIJKLMNOPQRSTUVWXYZ0123456789+-.''"

definition ascii_letters :: string where
  "ascii_letters = ''abcdefghijklmnopqrstuvwxyzABCDEFGHIJKLMNOPQRSTUVWXYZ''"

definition lower_char :: "char \<Rightarrow> char" where
  "lower_char c =
     (if c \<in> set ''ABCDEFGHIJKLMNOPQRSTUVWXYZ'' then char_of (of_char c + (32::nat)) else c)"

definition c0_control_or_space :: "char \<Rightarrow> bool" where
  "c0_control_or_space c = (of_char c \<le> (32::nat))"

definition unsafe_url_byte :: "char \<Rightarrow> bool" where
  "unsafe_url_byte c = (of_char c \<in> {9, 10, 13::nat})"

text \<open>\<open>s.split(c, 1)\<close> when \<open>c\<close> occurs in \<open>s\<close>, and \<open>(s, '')\<close> when it does not.\<close>

definition split_first :: "char \<Rightarrow> string \<Rightarrow> string \<times> string" where
  "split_first c s = (takeWhile (\<lambda>x. x \<noteq> c) s, drop 1 (dropWhile (\<lambda>x. x \<noteq> c) s))"

text \<open>\<open>_splitnetloc(url, 2)\<close>, given the text after the two slashes.\<close>

definition splitnetloc :: "string \<Rightarrow> string \<times> string" where
  "splitnetloc s =
     (takeWhile (\<lambda>x. x \<notin> set ''/?#'') s, dropWhile (\<lambda>x. x \<notin> set ''/?#'') s)"

definition split_scheme :: "string \<Rightarrow> string \<times> string" where
  "split_scheme url =
     (let pre = takeWhile (\<lambda>x. x \<noteq> CHR '':'') url in
      if CHR '':'' \<in> set url \<and> pre \<noteq> [] \<and> hd pre \<in> set ascii_letters
         \<and> (\<forall>c \<in> set pre. c \<in> set scheme_chars)
      then (map lower_char pre, drop (Suc (length pre)) url)
      else ([], url))"

definition unbalanced_bracket :: "string \<Rightarrow> bool" where
  "unbalanced_bracket nl =
     ((CHR ''['' \<in> set nl \<and> CHR '']'' \<notin> set nl) \<or> (CHR '']'' \<in> set nl \<and> CHR ''['' \<notin> set nl))"

definition netloc_part :: "string \<Rightarrow> string \<times> string" where
  "netloc_part url = (if take 2 url = ''//'' then splitnetloc (drop 2 url) else ([], url))"

definition urlsplit :: "string \<Rightarrow> py_error + url_parts" where
  "urlsplit url0 =
     (let url1 = filter (\<lambda>c. \<not> unsafe_url_byte c) (dropWhile c0_control_or_space url0);
          (sch, url2) = split_scheme url1;
          (nl, url3) = netloc_part url2
      in if unbalanced_bracket nl then Inl ValueError
         else let (url4, frag) = split_first (CHR ''#'') url3;
                  (pth, qry) = split_first (CHR ''?'') url4
              in Inr \<lparr>scheme = sch, netloc = nl, path = pth, query = qry, fragment = frag\<rparr>)"

section \<open>The outside world: network, file system, console\<close>

text \<open>
  An HTTPS exchange is a function from the request (method, host given to
  \<open>HTTPSConnection\<close>, target given to \<open>conn.request\<close>) to an exception or a response: the
  server is taken to answer the same request the same way each time. Of a response the
  code reads the status, the Location header and the body through \<open>json.loads\<close>
  (\<open>None\<close> when the body is not JSON).
\<close>

datatype http_method = GET | HEAD

record request =
  meth :: http_method
  host :: string
  target :: string

record response =
  status :: int
  location :: "string option"
  body :: "json option"

type_synonym net = "request \<Rightarrow> py_error + response"

text \<open>
  A file is what \<open>zipfile\<close> can read of it: an archive with its members in order (name
  and data), or other bytes. A member whose name ends in a slash is a directory entry.
\<close>

datatype content = Bytes string | Archive "(string \<times> content) list"

datatype node = File content | Dir

type_synonym fpath = "string list"

type_synonym filesystem = "fpath \<Rightarrow> node option"

text \<open>
  \<open>urllib.request.urlretrieve(url, filename)\<close>: the whole body arrives; or the server
  answers with an error status (HTTPError, raised before the local file is opened); or
  the transfer breaks with another exception, after the local file received the bytes
  given (\<open>None\<close> when the file was never opened).
\<close>

datatype retrieval = Retrieved content | Http_error int | Transfer_error "content option"

type_synonym downloader = "string \<Rightarrow> retrieval"

text \<open>
  Each \<open>print\<close> of the installer is a message with the values it interpolates; the trace
  of a run lists, in order, the HTTPS requests sent, the calls of \<open>urlretrieve\<close> and the
  messages printed.
\<close>

datatype message =
    Failed_fetch_latest int
  | Failed_retrieve_latest
  | Failed_fetch_assets int
  | Asset_not_found string
  | Downloading json
  | Failed_download string int
  | Failed_extract fpath
  | No_fontmake fpath
  | Extracted_to fpath

datatype event = Request request | Retrieve string fpath | Print message

text \<open>
  The machine the installer runs on: the disk; the entries of the disk that cannot be
  removed (a file or directory that \<open>unlink\<close>, \<open>rmdir\<close> or \<open>rename\<close> refuses to take
  away, for lack of permission or for a flag on it; creating and overwriting are taken
  not to be affected); the room on the interpreter's stack, that is the number of nested
  calls of \<open>get_redirected_url\<close> that fit under the recursion limit (1000 frames unless
  the host application changed it) where \<open>download_and_extract_zip\<close> calls it; and the
  trace. A run changes the disk and the trace only.
\<close>

record world =
  fs :: filesystem
  locked :: "fpath list"
  stack_room :: nat
  trace :: "event list"

definition emit :: "event \<Rightarrow> world \<Rightarrow> world" where
  "emit e w = w\<lparr>trace := trace w @ [e]\<rparr>"

section \<open>download-fontmake-pyz-from-gh.py\<close>

definition GITHUB_API_URL :: string where
  "GITHUB_API_URL = ''https://api.github.com/repos/googlefonts/fontmake''"

subsection \<open>get_redirected_url\<close>

text \<open>
  Lines 44 to 48: the HEAD request is built from \<open>url_parts.netloc\<close> and
  \<open>url_parts.path\<close>.
\<close>

definition head_request :: "url_parts \<Rightarrow> request" where
  "head_request url_parts = \<lparr>meth = HEAD, host = netloc url_parts, target = path url_parts\<rparr>"

text \<open>Lines 44 to 48 as a whole: the request is sent and logged, the response read.\<close>

definition head_probe :: "net \<Rightarrow> string \<Rightarrow> event list \<Rightarrow> (py_error + response) \<times> event list" where
  "head_probe srv url tr =
     (case urlsplit url of
        Inl e \<Rightarrow> (Inl e, tr)
      | Inr url_parts \<Rightarrow>
          (srv (head_request url_parts), tr @ [Request (head_request url_parts)]))"

text \<open>
  The function calls itself on the Location header (line 53) and nothing in it counts
  the calls: what ends a chain of redirects that does not end by itself is the
  interpreter, which raises RecursionError in the call that no longer fits under its
  recursion limit. The second argument is the number of nested calls that still fit;
  the call that does not fit is taken to fail on entry, before it sends a request. A
  redirect without a Location header passes Python's \<open>None\<close> to the recursive call,
  where \<open>HTTPSConnection\<close> raises TypeError on the empty bytes host that
  \<open>urlsplit(None)\<close> yields.
\<close>

fun get_redirected_url ::
  "net \<Rightarrow> nat \<Rightarrow> string \<Rightarrow> event list \<Rightarrow> (py_error + string) \<times> event list" where
  "get_redirected_url srv 0 url tr = (Inl RecursionError, tr)"
| "get_redirected_url srv (Suc room) url tr =
     (case head_probe srv url tr of
        (Inl e, tr1) \<Rightarrow> (Inl e, tr1)
      | (Inr resp, tr1) \<Rightarrow>
          if status resp \<in> {301, 302, 303, 307}
          then (case location resp of
                  None \<Rightarrow> (Inl (if room = 0 then RecursionError else TypeError), tr1)
                | Some new_location \<Rightarrow> get_redirected_url srv room new_location tr1)
          else (Inr url, tr1))"

subsection \<open>pathlib and the file system\<close>

text \<open>\<open>s.split(c)\<close>.\<close>

fun split_on :: "char \<Rightarrow> string \<Rightarrow> string list" where
  "split_on c [] = [[]]"
| "split_on c (x # xs) =
     (if x = c then [] # split_on c xs
      else (case split_on c xs of [] \<Rightarrow> [[x]] | p # ps \<Rightarrow> (x # p) # ps))"

text \<open>
  A path is the list of its components below the root. \<open>Path(dir) / name\<close> parses
  \<open>name\<close>: it splits at slashes and drops empty and \<open>.\<close> components, and an absolute
  \<open>name\<close> replaces \<open>dir\<close>. A \<open>..\<close> component is kept as it is, so the model describes
  the file system only for names without one (the names here are made from a release
  tag, and git allows no tag with two dots in a row).
\<close>

definition path_parts :: "string \<Rightarrow> string list" where
  "path_parts name = filter (\<lambda>x. x \<noteq> [] \<and> x \<noteq> ''.'') (split_on (CHR ''/'') name)"

definition joinpath :: "fpath \<Rightarrow> string \<Rightarrow> fpath" where
  "joinpath dir name = (if take 1 name = ''/'' then path_parts name else dir @ path_parts name)"

text \<open>\<open>PurePath.stem\<close>: the last component up to its last dot, when that dot is inside.\<close>

definition stem :: "fpath \<Rightarrow> string" where
  "stem p =
     (let name = (if p = [] then [] else last p);
          i = length name - Suc (length (takeWhile (\<lambda>c. c \<noteq> CHR ''.'') (rev name)))
      in if CHR ''.'' \<in> set name \<and> 0 < i \<and> i < length name - 1 then take i name else name)"

definition is_dir :: "filesystem \<Rightarrow> fpath \<Rightarrow> bool" where
  "is_dir f p = (p = [] \<or> f p = Some Dir)"

text \<open>
  A directory that exists with all the directories above it, as it must for a file to be
  created in it.
\<close>

definition dir_exists :: "filesystem \<Rightarrow> fpath \<Rightarrow> bool" where
  "dir_exists f d = (\<forall>p \<in> set (prefixes d). p \<noteq> [] \<longrightarrow> f p = Some Dir)"

definition is_file :: "filesystem \<Rightarrow> fpath \<Rightarrow> bool" where
  "is_file f p = (case f p of Some (File c) \<Rightarrow> True | _ \<Rightarrow> False)"

text \<open>
  \<open>open(p, "wb")\<close>, writing \<open>c\<close>, closing: an error when \<open>p\<close> is a directory or
  its parent directory does not exist.
\<close>

definition write_file :: "filesystem \<Rightarrow> fpath \<Rightarrow> content \<Rightarrow> py_error + filesystem" where
  "write_file f p c =
     (if p = [] \<or> f p = Some Dir \<or> \<not> dir_exists f (butlast p) then Inl OSError
      else Inr (f(p \<mapsto> File c)))"

definition mkdir :: "filesystem \<Rightarrow> fpath \<Rightarrow> py_error + filesystem" where
  "mkdir f p =
     (if p = [] \<or> f p \<noteq> None \<or> \<not> dir_exists f (butlast p) then Inl OSError
      else Inr (f(p \<mapsto> Dir)))"

text \<open>
  \<open>os.makedirs\<close> where the directory does not exist yet: walking down from \<open>pre\<close>, each
  missing directory is created; a file in the way is an error.
\<close>

fun makedirs_from :: "filesystem \<Rightarrow> fpath \<Rightarrow> string list \<Rightarrow> py_error + filesystem" where
  "makedirs_from f pre [] = Inr f"
| "makedirs_from f pre (c # cs) =
     (case f (pre @ [c]) of
        Some (File d) \<Rightarrow> Inl OSError
      | Some Dir \<Rightarrow> makedirs_from f (pre @ [c]) cs
      | None \<Rightarrow> makedirs_from (f(pre @ [c] \<mapsto> Dir)) (pre @ [c]) cs)"

text \<open>
  \<open>os.rename\<close> of a regular file (the script renames only a path for which \<open>is_file()\<close>
  has just held): an existing file at the destination is replaced; a directory there, a
  missing parent, a source that cannot be removed or a destination that cannot be
  replaced is an error. The second argument of this and the next two functions is the
  list of the entries that cannot be removed.
\<close>

definition rename :: "filesystem \<Rightarrow> fpath list \<Rightarrow> fpath \<Rightarrow> fpath \<Rightarrow> py_error + filesystem" where
  "rename f lk src dst =
     (case f src of
        Some (File c) \<Rightarrow>
          if src = dst then Inr f
          else if src \<in> set lk \<or> (f dst \<noteq> None \<and> dst \<in> set lk)
                  \<or> dst = [] \<or> f dst = Some Dir \<or> \<not> dir_exists f (butlast dst) then Inl OSError
          else Inr (f(src := None, dst \<mapsto> File c))
      | _ \<Rightarrow> Inl OSError)"

text \<open>
  An entry that \<open>rmtree\<close> cannot take away: one that cannot be removed, or a directory
  with such an entry somewhere below it.
\<close>

definition stuck :: "filesystem \<Rightarrow> fpath list \<Rightarrow> fpath \<Rightarrow> bool" where
  "stuck f lk q = list_ex (\<lambda>r. prefix q r \<and> f r \<noteq> None) lk"

text \<open>
  \<open>shutil.rmtree(p, ignore_errors=True)\<close>: of a directory, everything at and below it
  that can be taken away goes, and what cannot stays, without an exception; on anything
  that is not a directory the error is ignored and nothing changes.
\<close>

definition rmtree :: "filesystem \<Rightarrow> fpath list \<Rightarrow> fpath \<Rightarrow> filesystem" where
  "rmtree f lk p =
     (if f p = Some Dir then (\<lambda>q. if prefix p q \<and> \<not> stuck f lk q then None else f q) else f)"

definition unlink :: "filesystem \<Rightarrow> fpath list \<Rightarrow> fpath \<Rightarrow> py_error + filesystem" where
  "unlink f lk p =
     (case f p of
        Some (File c) \<Rightarrow> if p \<in> set lk then Inl OSError else Inr (f(p := None))
      | _ \<Rightarrow> Inl OSError)"

subsection \<open>zipfile\<close>

text \<open>\<open>zipfile.ZipFile(p, "r")\<close>.\<close>

definition open_zip :: "filesystem \<Rightarrow> fpath \<Rightarrow> py_error + (string \<times> content) list" where
  "open_zip f p =
     (case f p of
        Some (File (Archive ms)) \<Rightarrow> Inr ms
      | Some (File (Bytes b)) \<Rightarrow> Inl BadZipFile
      | _ \<Rightarrow> Inl OSError)"

text \<open>
  \<open>ZipFile._extract_member\<close>: the member's name loses its empty, \<open>.\<close> and \<open>..\<close>
  components, the directories above the target are created, then a directory entry
  makes its directory and any other entry writes its file. \<open>getinfo\<close> finds the last
  member of a name.
\<close>

definition member_parts :: "string \<Rightarrow> string list" where
  "member_parts filename =
     filter (\<lambda>x. x \<noteq> [] \<and> x \<noteq> ''.'' \<and> x \<noteq> ''..'') (split_on (CHR ''/'') filename)"

definition member_is_dir :: "string \<Rightarrow> bool" where
  "member_is_dir filename = (filename \<noteq> [] \<and> last filename = CHR ''/'')"

definition extract_member ::
  "(string \<times> content) list \<Rightarrow> fpath \<Rightarrow> filesystem \<Rightarrow> string \<Rightarrow> py_error + filesystem" where
  "extract_member ms dir f filename =
     (let targetpath = dir @ member_parts filename in
      case makedirs_from f [] (butlast targetpath) of
        Inl e \<Rightarrow> Inl e
      | Inr f1 \<Rightarrow>
          if member_is_dir filename
          then (if is_dir f1 targetpath then Inr f1 else mkdir f1 targetpath)
          else (case map_of (rev ms) filename of
                  None \<Rightarrow> Inl KeyError
                | Some d \<Rightarrow> write_file f1 targetpath d))"

text \<open>
  \<open>ZipFile.extractall\<close> over the list of names; an exception leaves what was extracted
  before it.
\<close>

fun extract_names ::
  "(string \<times> content) list \<Rightarrow> fpath \<Rightarrow> string list \<Rightarrow> filesystem \<Rightarrow> (py_error + unit) \<times> filesystem" where
  "extract_names ms dir [] f = (Inr (), f)"
| "extract_names ms dir (n # ns) f =
     (case extract_member ms dir f n of
        Inl e \<Rightarrow> (Inl e, f)
      | Inr f1 \<Rightarrow> extract_names ms dir ns f1)"

definition extractall ::
  "(string \<times> content) list \<Rightarrow> fpath \<Rightarrow> filesystem \<Rightarrow> (py_error + unit) \<times> filesystem" where
  "extractall ms dir f = extract_names ms dir (map fst ms) f"

subsection \<open>urllib.request.urlretrieve\<close>

definition urlretrieve :: "downloader \<Rightarrow> string \<Rightarrow> fpath \<Rightarrow> world \<Rightarrow> (py_error + unit) \<times> world" where
  "urlretrieve dl url filename w =
     (let w1 = emit (Retrieve url filename) w in
      case dl url of
        Http_error code \<Rightarrow> (Inl (HTTPError code), w1)
      | Transfer_error None \<Rightarrow> (Inl URLError, w1)
      | Transfer_error (Some partial) \<Rightarrow>
          (case write_file (fs w1) filename partial of
             Inl e \<Rightarrow> (Inl e, w1)
           | Inr f1 \<Rightarrow> (Inl URLError, w1\<lparr>fs := f1\<rparr>))
      | Retrieved c \<Rightarrow>
          (case write_file (fs w1) filename c of
             Inl e \<Rightarrow> (Inl e, w1)
           | Inr f1 \<Rightarrow> (Inr (), w1\<lparr>fs := f1\<rparr>)))"

subsection \<open>get_latest_release_tag\<close>

definition get_latest_release_tag :: "net \<Rightarrow> world \<Rightarrow> (py_error + json) \<times> world" where
  "get_latest_release_tag srv w =
     (case urlsplit (GITHUB_API_URL @ ''/releases/latest'') of
        Inl e \<Rightarrow> (Inl e, w)
      | Inr url_parts \<Rightarrow>
          let rq = \<lparr>meth = GET, host = netloc url_parts, target = path url_parts\<rparr>;
              w1 = emit (Request rq) w
          in (case srv rq of
                Inl e \<Rightarrow> (Inl e, w1)
              | Inr resp \<Rightarrow>
                  if status resp \<noteq> 200
                  then (Inr JNull, emit (Print (Failed_fetch_latest (status resp))) w1)
                  else (case body resp of
                          None \<Rightarrow> (Inl JSONDecodeError, w1)
                        | Some data \<Rightarrow>
                            (case getitem data ''tag_name'' of
                               Inl e \<Rightarrow> (Inl e, w1)
                             | Inr version \<Rightarrow> (Inr version, w1)))))"

subsection \<open>download_and_extract_zip\<close>

text \<open>Lines 75 to 79: the version and the name of the asset.\<close>

definition version_of :: "string \<Rightarrow> string" where
  "version_of tag_name = (if take 1 tag_name = ''v'' then drop 1 tag_name else tag_name)"

definition FONTMAKE_ZIP :: "string \<Rightarrow> string" where
  "FONTMAKE_ZIP version = ''fontmake-'' @ version @ ''-cp311-cp311-macosx_11_0_universal2.zip''"

definition pyz_name :: "string \<Rightarrow> string" where
  "pyz_name version = ''fontmake-'' @ version @ ''.pyz''"

text \<open>
  Lines 92 to 96, the loop over the assets: \<open>zip_url\<close> starts as \<open>None\<close> and the loop
  breaks at the first asset whose name equals \<open>zip_filename\<close>.
\<close>

fun scan_assets :: "json list \<Rightarrow> string \<Rightarrow> py_error + json" where
  "scan_assets [] zip_filename = Inr JNull"
| "scan_assets (asset # assets) zip_filename =
     (case getitem asset ''name'' of
        Inl e \<Rightarrow> Inl e
      | Inr n \<Rightarrow>
          if n = JStr zip_filename then getitem asset ''browser_download_url''
          else scan_assets assets zip_filename)"

text \<open>
  Lines 82 to 102: the release of the tag is fetched and its assets searched. The result
  \<open>Inr None\<close> is a return of \<open>download_and_extract_zip\<close> at line 88 or 102,
  \<open>Inr (Some zip_url)\<close> goes on to line 104.
\<close>

definition find_zip_url :: "net \<Rightarrow> string \<Rightarrow> world \<Rightarrow> (py_error + json option) \<times> world" where
  "find_zip_url srv tag_name w =
     (let zip_filename = FONTMAKE_ZIP (version_of tag_name) in
      case urlsplit (GITHUB_API_URL @ ''/releases/tags/'' @ tag_name) of
        Inl e \<Rightarrow> (Inl e, w)
      | Inr url_parts \<Rightarrow>
          let rq = \<lparr>meth = GET, host = netloc url_parts, target = path url_parts\<rparr>;
              w1 = emit (Request rq) w
          in (case srv rq of
                Inl e \<Rightarrow> (Inl e, w1)
              | Inr resp \<Rightarrow>
                  if status resp \<noteq> 200
                  then (Inr None, emit (Print (Failed_fetch_assets (status resp))) w1)
                  else (case body resp of
                          None \<Rightarrow> (Inl JSONDecodeError, w1)
                        | Some data \<Rightarrow>
                            (case getitem data ''assets'' of
                               Inl e \<Rightarrow> (Inl e, w1)
                             | Inr assets \<Rightarrow>
                                 (case iter_json assets of
                                    Inl e \<Rightarrow> (Inl e, w1)
                                  | Inr asset_list \<Rightarrow>
                                      (case scan_assets asset_list zip_filename of
                                         Inl e \<Rightarrow> (Inl e, w1)
                                       | Inr zip_url \<Rightarrow>
                                           if \<not> truthy zip_url
                                           then (Inr None, emit (Print (Asset_not_found zip_filename)) w1)
                                           else (Inr (Some zip_url), w1)))))))"

text \<open>
  Lines 104 to 111: the message, the redirects, the download. \<open>Inr False\<close> is the return
  at line 111, \<open>Inr True\<close> goes on to line 113. A \<open>zip_url\<close> that is not a string makes
  \<open>get_redirected_url\<close> raise before any request: AttributeError in \<open>urlsplit\<close> for a
  number or \<open>True\<close>, TypeError for a list or a dict (unhashable) and for a falsy value
  (which \<open>urlsplit\<close> turns into empty bytes that \<open>HTTPSConnection\<close> rejects).
\<close>

definition fetch_zip ::
  "net \<Rightarrow> downloader \<Rightarrow> json \<Rightarrow> fpath \<Rightarrow> world \<Rightarrow> (py_error + bool) \<times> world" where
  "fetch_zip srv dl zip_url zip_path w =
     (let w1 = emit (Print (Downloading zip_url)) w in
      case zip_url of
        JStr u \<Rightarrow>
          (case get_redirected_url srv (stack_room w1) u (trace w1) of
             (Inl e, tr) \<Rightarrow> (Inl e, w1\<lparr>trace := tr\<rparr>)
           | (Inr final_url, tr) \<Rightarrow>
               (case urlretrieve dl final_url zip_path (w1\<lparr>trace := tr\<rparr>) of
                  (Inl (HTTPError code), w2) \<Rightarrow>
                    (Inr False, emit (Print (Failed_download final_url code)) w2)
                | (Inl e, w2) \<Rightarrow> (Inl e, w2)
                | (Inr u, w2) \<Rightarrow> (Inr True, w2)))
      | JNum n \<Rightarrow> (Inl (if n = 0 then TypeError else AttributeError), w1)
      | JBool b \<Rightarrow> (Inl (if b then AttributeError else TypeError), w1)
      | _ \<Rightarrow> (Inl TypeError, w1))"

text \<open>Lines 113 to 132: extraction, the two checks, the rename, the cleanup.\<close>

definition unpack :: "string \<Rightarrow> fpath \<Rightarrow> fpath \<Rightarrow> world \<Rightarrow> (py_error + unit) \<times> world" where
  "unpack version zip_path output_dir w =
     (case open_zip (fs w) zip_path of
        Inl e \<Rightarrow> (Inl e, w)
      | Inr ms \<Rightarrow>
          (case extractall ms output_dir (fs w) of
             (Inl e, f1) \<Rightarrow> (Inl e, w\<lparr>fs := f1\<rparr>)
           | (Inr u, f1) \<Rightarrow>
               let w1 = w\<lparr>fs := f1\<rparr>;
                   extracted_dir = joinpath output_dir (stem zip_path)
               in if \<not> is_dir f1 extracted_dir
                  then (Inr (), emit (Print (Failed_extract zip_path)) w1)
                  else
                    let fontmake_exe = joinpath extracted_dir ''fontmake'' in
                    if \<not> is_file f1 fontmake_exe
                    then (Inr (), emit (Print (No_fontmake extracted_dir)) w1)
                    else
                      (case rename f1 (locked w) fontmake_exe
                              (joinpath output_dir (pyz_name version)) of
                         Inl e \<Rightarrow> (Inl e, w1)
                       | Inr f2 \<Rightarrow>
                           let w2 = emit (Print (Extracted_to output_dir)) (w1\<lparr>fs := f2\<rparr>);
                               f3 = rmtree f2 (locked w) extracted_dir
                           in (case unlink f3 (locked w) zip_path of
                                 Inl e \<Rightarrow> (Inl e, w2\<lparr>fs := f3\<rparr>)
                               | Inr f4 \<Rightarrow> (Inr (), w2\<lparr>fs := f4\<rparr>)))))"

text \<open>
  The whole function. Python's function returns \<open>None\<close> at every exit, so the result is
  either an exception or \<open>()\<close>; which exit was taken shows in the trace.
\<close>

definition download_and_extract_zip ::
  "net \<Rightarrow> downloader \<Rightarrow> string \<Rightarrow> fpath \<Rightarrow> world \<Rightarrow> (py_error + unit) \<times> world" where
  "download_and_extract_zip srv dl tag_name output_dir w =
     (let version = version_of tag_name;
          zip_path = joinpath output_dir (FONTMAKE_ZIP version)
      in case find_zip_url srv tag_name w of
           (Inl e, w1) \<Rightarrow> (Inl e, w1)
         | (Inr None, w1) \<Rightarrow> (Inr (), w1)
         | (Inr (Some zip_url), w1) \<Rightarrow>
             (case fetch_zip srv dl zip_url zip_path w1 of
                (Inl e, w2) \<Rightarrow> (Inl e, w2)
              | (Inr False, w2) \<Rightarrow> (Inr (), w2)
              | (Inr True, w2) \<Rightarrow> unpack version zip_path output_dir w2))"

subsection \<open>main\<close>

text \<open>
  \<open>main\<close> returns 1 when no tag was found and \<open>None\<close> otherwise. A tag that is not a
  string has no \<open>startswith\<close>: AttributeError at line 76.
\<close>

definition main ::
  "net \<Rightarrow> downloader \<Rightarrow> fpath \<Rightarrow> world \<Rightarrow> (py_error + int option) \<times> world" where
  "main srv dl HERE w =
     (case get_latest_release_tag srv w of
        (Inl e, w1) \<Rightarrow> (Inl e, w1)
      | (Inr latest_tag, w1) \<Rightarrow>
          if latest_tag = JNull
          then (Inr (Some 1), emit (Print Failed_retrieve_latest) w1)
          else (case latest_tag of
                  JStr tag_name \<Rightarrow>
                    (case download_and_extract_zip srv dl tag_name HERE w1 of
                       (Inl e, w2) \<Rightarrow> (Inl e, w2)
                     | (Inr u, w2) \<Rightarrow> (Inr None, w2))
                | _ \<Rightarrow> (Inl AttributeError, w1)))"

section \<open>export-font-with-fontmake.py\<close>

subsection \<open>run_subprocess_in_macro_window\<close>

text \<open>
  The child process is what the supervisor can observe of it: the lines it writes to the
  merged pipe, as the text-mode reader yields them (each with its newline), its return
  code, and how many times \<open>process.poll()\<close> finds it still running before finding it
  terminated. The last number depends on timing; it is 0 when the child has terminated
  before the first poll. A child that never terminates is not described. Launching may
  raise (for instance when the executable does not exist).
\<close>

record child =
  out_lines :: "string list"
  exit_status :: int
  polls_while_running :: nat

type_synonym launcher = "string list \<Rightarrow> py_error + child"

record macro_window =
  log_text :: string
  shown :: bool

record completed_process =
  args :: "string list"
  returncode :: int
  stdout :: "string option"
  stderr :: "string option"

text \<open>\<open>shlex.quote\<close>, for the command line printed first.\<close>

definition shlex_quote :: "string \<Rightarrow> string" where
  "shlex_quote s =
     (if s = [] then [CHR 0x27, CHR 0x27]
      else if \<forall>c \<in> set s. c \<in> set
        ''abcdefghijklmnopqrstuvwxyzABCDEFGHIJKLMNOPQRSTUVWXYZ0123456789_@%+=:,./-''
      then s
      else [CHR 0x27]
           @ concat (map (\<lambda>c. if c = CHR 0x27 then [CHR 0x27, CHR 0x22, CHR 0x27, CHR 0x22, CHR 0x27]
                               else [c]) s)
           @ [CHR 0x27])"

text \<open>\<open>sep.join(xs)\<close> for a separator of one character.\<close>

fun join_with :: "char \<Rightarrow> string list \<Rightarrow> string" where
  "join_with sep [] = []"
| "join_with sep [x] = x"
| "join_with sep (x # y # ys) = x @ sep # join_with sep (y # ys)"

text \<open>
  The inner loop \<open>for line in process.stdout\<close> reads to the end of the stream: every
  line goes to the window and, when capturing, to \<open>output\<close>.
\<close>

fun read_lines :: "string list \<Rightarrow> string \<times> string option \<Rightarrow> string \<times> string option" where
  "read_lines [] st = st"
| "read_lines (line # rest) (window, output) =
     read_lines rest (window @ line, map_option (\<lambda>buf. buf @ line) output)"

text \<open>
  The outer loop \<open>while process.poll() is None\<close>: each round in which the child is
  found running drains the stream; once the stream is at its end a further round reads
  nothing.
\<close>

fun poll_loop :: "nat \<Rightarrow> string list \<Rightarrow> string \<times> string option \<Rightarrow> string \<times> string option" where
  "poll_loop 0 unread st = st"
| "poll_loop (Suc n) unread st = poll_loop n [] (read_lines unread st)"

definition run_subprocess_in_macro_window ::
  "launcher \<Rightarrow> string list \<Rightarrow> bool \<Rightarrow> bool \<Rightarrow> bool \<Rightarrow> bool \<Rightarrow> macro_window
     \<Rightarrow> (py_error + completed_process) \<times> macro_window" where
  "run_subprocess_in_macro_window popen command check clear_log show_window capture_output mw =
     (let mw1 = (if clear_log then mw\<lparr>log_text := []\<rparr> else mw);
          mw2 = (if show_window then mw1\<lparr>shown := True\<rparr> else mw1);
          mw3 = mw2\<lparr>log_text := log_text mw2 @ ''$ '' @ join_with (CHR '' '') (map shlex_quote command)
                                   @ [CHR 0x0A]\<rparr>
      in case popen command of
           Inl e \<Rightarrow> (Inl e, mw3)
         | Inr process \<Rightarrow>
             let output = (if capture_output then Some [] else None);
                 (window, output1) = poll_loop (polls_while_running process) (out_lines process)
                                       (log_text mw3, output);
                 mw4 = mw3\<lparr>log_text := window\<rparr>;
                 rc = exit_status process
             in if check \<and> rc \<noteq> 0 then (Inl (CalledProcessError rc), mw4)
                else if capture_output
                then (Inr \<lparr>args = command, returncode = rc, stdout = output1, stderr = Some []\<rparr>, mw4)
                else (Inr \<lparr>args = command, returncode = rc, stdout = None, stderr = None\<rparr>, mw4))"

subsection \<open>main, lines 159 to 164: the reported output paths\<close>

text \<open>
  \<open>re.findall(r"^INFO:fontmake.font_project:Saving (.*)$", text, flags=re.M)\<close>. With
  \<open>re.M\<close> the pattern is tried at the start of each line, a line ending at a newline or
  at the end of the text. Its unescaped dot stands for any one character, and the group
  takes the rest of the line.
\<close>

definition strip_prefix :: "string \<Rightarrow> string \<Rightarrow> string option" where
  "strip_prefix pre s = (if take (length pre) s = pre then Some (drop (length pre) s) else None)"

definition match_saving :: "string \<Rightarrow> string option" where
  "match_saving line =
     (case strip_prefix ''INFO:fontmake'' line of
        None \<Rightarrow> None
      | Some r1 \<Rightarrow>
          (case r1 of
             [] \<Rightarrow> None
           | c # r2 \<Rightarrow> strip_prefix ''font_project:Saving '' r2))"

definition output_paths :: "string \<Rightarrow> string list" where
  "output_paths text = List.map_filter match_saving (split_on (CHR 0x0A) text)"

text \<open>The path handed to \<open>reveal_file_in_finder\<close>, if any: \<open>output_paths[-1]\<close>.\<close>

definition revealed_path :: "string \<Rightarrow> string option" where
  "revealed_path text =
     (let paths = output_paths text in if paths \<noteq> [] then Some (last paths) else None)"

section \<open>Notions used in the statements\<close>

text \<open>
  The response to the HEAD request that \<open>get_redirected_url\<close> sends for a URL, and the
  test of line 50.
\<close>

definition head_response :: "net \<Rightarrow> string \<Rightarrow> py_error + response" where
  "head_response srv url =
     (case urlsplit url of Inl e \<Rightarrow> Inl e | Inr url_parts \<Rightarrow> srv (head_request url_parts))"

definition is_redirect :: "response \<Rightarrow> bool" where
  "is_redirect resp = (status resp \<in> {301, 302, 303, 307})"

text \<open>
  A chain of redirects: \<open>url\<close> is answered by a redirect to the first element of the
  list, that one by a redirect to the second, and so on.
\<close>

fun redirect_chain :: "net \<Rightarrow> string \<Rightarrow> string list \<Rightarrow> bool" where
  "redirect_chain srv url [] = True"
| "redirect_chain srv url (hop # hops) =
     (case head_response srv url of
        Inl e \<Rightarrow> False
      | Inr resp \<Rightarrow> is_redirect resp \<and> location resp = Some hop \<and> redirect_chain srv hop hops)"

text \<open>
  The two GET requests of the script, as \<open>urlsplit\<close> makes them from
  \<open>GITHUB_API_URL\<close>: the target for a tag stops at the first \<open>#\<close> or \<open>?\<close> of the
  tag.
\<close>

definition latest_request :: request where
  "latest_request = \<lparr>meth = GET, host = ''api.github.com'',
                      target = ''/repos/googlefonts/fontmake/releases/latest''\<rparr>"

definition release_request :: "string \<Rightarrow> request" where
  "release_request tag_name = \<lparr>meth = GET, host = ''api.github.com'',
     target = ''/repos/googlefonts/fontmake/releases/tags/''
              @ takeWhile (\<lambda>c. c \<noteq> CHR ''?'')
                  (takeWhile (\<lambda>c. c \<noteq> CHR ''#'')
                     (filter (\<lambda>c. \<not> unsafe_url_byte c) tag_name))\<rparr>"

text \<open>An asset that has a \<open>name\<close> field, and one whose name is the given string.\<close>

definition has_name :: "json \<Rightarrow> bool" where
  "has_name asset = (case getitem asset ''name'' of Inl e \<Rightarrow> False | Inr n \<Rightarrow> True)"

definition is_named :: "string \<Rightarrow> json \<Rightarrow> bool" where
  "is_named n asset = (getitem asset ''name'' = Inr (JStr n))"

text \<open>
  The paths of \<open>download_and_extract_zip\<close> for an output directory and a tag, as
  lines 79, 104, 117, 123 and 129 compute them: the archive file, the name of the
  directory the archive is expected to unpack to (the name of the archive file without
  \<open>.zip\<close>), that directory, the file \<open>fontmake\<close> in it, and the final artifact.
\<close>

definition zip_path_of :: "fpath \<Rightarrow> string \<Rightarrow> fpath" where
  "zip_path_of output_dir tag_name = joinpath output_dir (FONTMAKE_ZIP (version_of tag_name))"

definition top_dir_of :: "fpath \<Rightarrow> string \<Rightarrow> string" where
  "top_dir_of output_dir tag_name = stem (zip_path_of output_dir tag_name)"

definition extracted_dir_of :: "fpath \<Rightarrow> string \<Rightarrow> fpath" where
  "extracted_dir_of output_dir tag_name = joinpath output_dir (top_dir_of output_dir tag_name)"

definition fontmake_exe_of :: "fpath \<Rightarrow> string \<Rightarrow> fpath" where
  "fontmake_exe_of output_dir tag_name = joinpath (extracted_dir_of output_dir tag_name) ''fontmake''"

definition pyz_path_of :: "fpath \<Rightarrow> string \<Rightarrow> fpath" where
  "pyz_path_of output_dir tag_name = joinpath output_dir (pyz_name (version_of tag_name))"

text \<open>
  An archive all of whose members lie in one directory, and one that has a file member
  \<open>fontmake\<close> in that directory.
\<close>

definition members_under :: "string \<Rightarrow> (string \<times> content) list \<Rightarrow> bool" where
  "members_under topdir ms = list_all (\<lambda>m. take 1 (member_parts (fst m)) = [topdir]) ms"

definition has_fontmake :: "string \<Rightarrow> (string \<times> content) list \<Rightarrow> bool" where
  "has_fontmake topdir ms =
     list_ex (\<lambda>m. \<not> member_is_dir (fst m) \<and> member_parts (fst m) = [topdir, ''fontmake'']) ms"

fun is_print :: "event \<Rightarrow> bool" where
  "is_print (Print m) = True"
| "is_print e = False"

section \<open>Example worlds\<close>

text \<open>
  A server with one release, \<open>v3.7.0\<close>, whose asset is served through one redirect to a
  signed URL; every other request is answered 404.
\<close>

definition asset_url :: string where
  "asset_url = ''https://github.com/googlefonts/fontmake/releases/download/v3.7.0/fontmake-3.7.0-cp311-cp311-macosx_11_0_universal2.zip''"

definition signed_url :: string where
  "signed_url = ''https://objects.example.com/dl/fontmake.zip?token=abc''"

definition demo_assets :: "json list" where
  "demo_assets = [
     JObj [(''name'', JStr ''fontmake-3.7.0.tar.gz''),
           (''browser_download_url'', JStr ''https://github.com/googlefonts/fontmake/releases/download/v3.7.0/fontmake-3.7.0.tar.gz'')],
     JObj [(''name'', JStr ''fontmake-3.7.0-cp311-cp311-macosx_11_0_universal2.zip''),
           (''browser_download_url'', JStr asset_url)]]"

definition demo_release :: json where
  "demo_release = JObj [(''tag_name'', JStr ''v3.7.0''), (''assets'', JArr demo_assets)]"

definition demo_srv :: net where
  "demo_srv rq =
     (if rq = \<lparr>meth = GET, host = ''api.github.com'',
                target = ''/repos/googlefonts/fontmake/releases/latest''\<rparr>
         \<or> rq = \<lparr>meth = GET, host = ''api.github.com'',
                   target = ''/repos/googlefonts/fontmake/releases/tags/v3.7.0''\<rparr>
      then Inr \<lparr>status = 200, location = None, body = Some demo_release\<rparr>
      else if rq = \<lparr>meth = HEAD, host = ''github.com'',
                      target = ''/googlefonts/fontmake/releases/download/v3.7.0/fontmake-3.7.0-cp311-cp311-macosx_11_0_universal2.zip''\<rparr>
      then Inr \<lparr>status = 302, location = Some signed_url, body = None\<rparr>
      else if rq = \<lparr>meth = HEAD, host = ''objects.example.com'', target = ''/dl/fontmake.zip''\<rparr>
      then Inr \<lparr>status = 200, location = None, body = None\<rparr>
      else Inr \<lparr>status = 404, location = None, body = None\<rparr>)"

text \<open>A server that answers every request with that release.\<close>

definition any_release_srv :: net where
  "any_release_srv rq = Inr \<lparr>status = 200, location = None, body = Some demo_release\<rparr>"

text \<open>A server that redirects every request to the same URL.\<close>

definition loop_url :: string where
  "loop_url = ''https://example.com/a''"

definition loop_srv :: net where
  "loop_srv rq = Inr \<lparr>status = 302, location = Some loop_url, body = None\<rparr>"

text \<open>
  A server that redirects \<open>/aa...a\<close> to the same path with one \<open>a\<close> less, and answers
  200 at \<open>/\<close>; and the URL that is \<open>k\<close> redirects away from that answer.
\<close>

definition countdown_srv :: net where
  "countdown_srv rq =
     (if target rq = ''/'' then Inr \<lparr>status = 200, location = None, body = None\<rparr>
      else Inr \<lparr>status = 302, location = Some (''https://hops.example'' @ butlast (target rq)),
                body = None\<rparr>)"

definition hops_url :: "nat \<Rightarrow> string" where
  "hops_url k = ''https://hops.example/'' @ replicate k (CHR ''a'')"

text \<open>
  A downloader that fails with HTTP status 503 on every URL, one whose transfers break
  after two bytes, and an empty disk. The example machines have nothing that cannot be
  removed, unless said otherwise, and room for 980 nested calls, as under CPython's
  default limit of 1000 frames with twenty frames in use.
\<close>

definition failing_dl :: downloader where
  "failing_dl url = Http_error 503"

definition broken_dl :: downloader where
  "broken_dl url = Transfer_error (Some (Bytes ''PK''))"

definition empty_world :: world where
  "empty_world = \<lparr>fs = (\<lambda>p. None), locked = [], stack_room = 980, trace = []\<rparr>"

text \<open>
  A downloader that serves, at the signed URL, an archive with the expected directory
  and the \<open>fontmake\<close> file in it, and one that serves an archive with the directory and
  only a README. A disk with the scripts directory and one file in it.
\<close>

definition demo_archive :: "(string \<times> content) list" where
  "demo_archive =
     [(''fontmake-3.7.0-cp311-cp311-macosx_11_0_universal2/'', Bytes []),
      (''fontmake-3.7.0-cp311-cp311-macosx_11_0_universal2/fontmake'', Bytes ''PK-fontmake-app'')]"

definition demo_dl :: downloader where
  "demo_dl url = (if url = signed_url then Retrieved (Archive demo_archive) else Http_error 404)"

definition readme_archive :: "(string \<times> content) list" where
  "readme_archive =
     [(''fontmake-3.7.0-cp311-cp311-macosx_11_0_universal2/'', Bytes []),
      (''fontmake-3.7.0-cp311-cp311-macosx_11_0_universal2/README.txt'', Bytes ''read me'')]"

definition readme_dl :: downloader where
  "readme_dl url = (if url = signed_url then Retrieved (Archive readme_archive) else Http_error 404)"

definition demo_fs :: filesystem where
  "demo_fs = ((\<lambda>p. None)([''Scripts''] \<mapsto> Dir))([''Scripts'', ''export.py''] \<mapsto> File (Bytes ''import io''))"

definition demo_world :: world where
  "demo_world = \<lparr>fs = demo_fs, locked = [], stack_room = 980, trace = []\<rparr>"

text \<open>
  A downloader that serves an archive with the directory, the \<open>fontmake\<close> file and, beside
  the directory, a licence file; and the run of the installer with it.
\<close>

definition stray_archive :: "(string \<times> content) list" where
  "stray_archive =
     [(''fontmake-3.7.0-cp311-cp311-macosx_11_0_universal2/'', Bytes []),
      (''fontmake-3.7.0-cp311-cp311-macosx_11_0_universal2/fontmake'', Bytes ''PK-fontmake-app''),
      (''LICENSE'', Bytes ''Apache-2.0'')]"

definition stray_dl :: downloader where
  "stray_dl url = (if url = signed_url then Retrieved (Archive stray_archive) else Http_error 404)"

definition stray_run :: "(py_error + unit) \<times> world" where
  "stray_run = download_and_extract_zip demo_srv stray_dl ''v3.7.0'' [''Scripts''] demo_world"

text \<open>
  A disk on which the directory that the archive unpacks to exists already and holds a
  file that cannot be removed; and the run of the installer there, with the archive that
  has the directory and the \<open>fontmake\<close> file.
\<close>

definition guarded_world :: world where
  "guarded_world =
     \<lparr>fs = demo_fs([''Scripts'', ''fontmake-3.7.0-cp311-cp311-macosx_11_0_universal2''] \<mapsto> Dir,
                   [''Scripts'', ''fontmake-3.7.0-cp311-cp311-macosx_11_0_universal2'', ''notes.txt'']
                     \<mapsto> File (Bytes ''keep'')),
      locked = [[''Scripts'', ''fontmake-3.7.0-cp311-cp311-macosx_11_0_universal2'', ''notes.txt'']],
      stack_room = 980, trace = []\<rparr>"

definition guarded_run :: "(py_error + unit) \<times> world" where
  "guarded_run = download_and_extract_zip demo_srv demo_dl ''v3.7.0'' [''Scripts''] guarded_world"

text \<open>
  A downloader that serves an archive with the directory, a README in it and, beside the
  directory, a member that has the name of the final artifact; and the run of the
  installer with it.
\<close>

definition decoy_archive :: "(string \<times> content) list" where
  "decoy_archive =
     [(''fontmake-3.7.0-cp311-cp311-macosx_11_0_universal2/'', Bytes []),
      (''fontmake-3.7.0-cp311-cp311-macosx_11_0_universal2/README.txt'', Bytes ''read me''),
      (''fontmake-3.7.0.pyz'', Bytes ''not the app'')]"

definition decoy_dl :: downloader where
  "decoy_dl url = (if url = signed_url then Retrieved (Archive decoy_archive) else Http_error 404)"

definition decoy_run :: "(py_error + unit) \<times> world" where
  "decoy_run = download_and_extract_zip demo_srv decoy_dl ''v3.7.0'' [''Scripts''] demo_world"

section \<open>Splitting strings\<close>

lemma split_on_not_Nil: "split_on c s \<noteq> []"
  by (induction s) (auto split: list.splits)

lemma split_on_no_sep: "c \<notin> set s \<Longrightarrow> split_on c s = [s]"
  by (induction s) auto

lemma split_on_append_sep:
  "c \<notin> set l \<Longrightarrow> split_on c (l @ c # rest) = l # split_on c rest"
  by (induction l) auto

lemma split_on_join_with:
  "ls \<noteq> [] \<Longrightarrow> \<forall>l \<in> set ls. c \<notin> set l \<Longrightarrow> split_on c (join_with c ls) = ls"
  by (induction c ls rule: join_with.induct) (auto simp: split_on_no_sep split_on_append_sep)

section \<open>Properties of download-fontmake-pyz-from-gh.py\<close>

subsection \<open>What urlsplit does with a query\<close>

lemma dropWhile_append_stop: "\<not> P y \<Longrightarrow> dropWhile P (xs @ y # ys) = dropWhile P xs @ y # ys"
  by (induction xs) auto

lemma takeWhile_append_stop: "\<not> P y \<Longrightarrow> takeWhile P (xs @ y # ys) = takeWhile P xs"
  by (induction xs) auto

lemma takeWhile_neq_append: "c \<notin> set xs \<Longrightarrow> takeWhile (\<lambda>x. x \<noteq> c) (xs @ ys) = xs @ takeWhile (\<lambda>x. x \<noteq> c) ys"
  by (induction xs) auto

lemma length_takeWhile_stop: "y \<in> set xs \<Longrightarrow> \<not> P y \<Longrightarrow> length (takeWhile P xs) < length xs"
  by (induction xs) auto

lemma split_scheme_query:
  assumes "CHR ''?'' \<notin> set a"
  shows "split_scheme (a @ CHR ''?'' # q) = (fst (split_scheme a), snd (split_scheme a) @ CHR ''?'' # q)"
proof (cases "CHR '':'' \<in> set a")
  case True
  then have tw: "takeWhile (\<lambda>x. x \<noteq> CHR '':'') (a @ CHR ''?'' # q) = takeWhile (\<lambda>x. x \<noteq> CHR '':'') a"
    by (simp add: takeWhile_append1)
  have "length (takeWhile (\<lambda>x. x \<noteq> CHR '':'') a) < length a"
    using True by (simp add: length_takeWhile_stop)
  then show ?thesis
    using True by (simp add: split_scheme_def tw Let_def)
next
  case False
  then have tw: "takeWhile (\<lambda>x. x \<noteq> CHR '':'') (a @ CHR ''?'' # q)
                   = a @ CHR ''?'' # takeWhile (\<lambda>x. x \<noteq> CHR '':'') q"
    by (simp add: takeWhile_neq_append)
  show ?thesis
    using False by (simp add: split_scheme_def tw Let_def scheme_chars_def)
qed

lemma split_scheme_suffix: "set (snd (split_scheme a)) \<subseteq> set a"
  by (auto simp: split_scheme_def Let_def dest: in_set_dropD)

lemma netloc_part_query:
  assumes "CHR ''?'' \<notin> set b" "CHR ''#'' \<notin> set b"
  shows "netloc_part (b @ CHR ''?'' # q) = (fst (netloc_part b), snd (netloc_part b) @ CHR ''?'' # q)"
proof (cases "take 2 b = ''//''")
  case True
  then have "length b \<ge> 2" by (cases b; cases "tl b") auto
  then have d: "drop 2 (b @ CHR ''?'' # q) = drop 2 b @ CHR ''?'' # q" and t: "take 2 (b @ CHR ''?'' # q) = take 2 b"
    by auto
  show ?thesis
    unfolding netloc_part_def t d
    using True by (simp add: splitnetloc_def takeWhile_append_stop dropWhile_append_stop del: take_append drop_append)
next
  case False
  then have "take 2 (b @ CHR ''?'' # q) \<noteq> ''//''"
    by (cases b; cases "tl b") auto
  with False show ?thesis by (simp add: netloc_part_def)
qed

lemma netloc_part_suffix: "set (snd (netloc_part b)) \<subseteq> set b"
  by (auto simp: netloc_part_def splitnetloc_def dest: set_dropWhileD in_set_dropD)

lemma urlsplit_query_request:
  assumes "CHR ''?'' \<notin> set u" and "CHR ''#'' \<notin> set u"
  shows "map_sum id head_request (urlsplit (u @ CHR ''?'' # q)) = map_sum id head_request (urlsplit u)"
proof -
  define a where "a = filter (\<lambda>c. \<not> unsafe_url_byte c) (dropWhile c0_control_or_space u)"
  define q' where "q' = filter (\<lambda>c. \<not> unsafe_url_byte c) q"
  have a: "CHR ''?'' \<notin> set a" "CHR ''#'' \<notin> set a"
    using assms by (auto simp: a_def dest: set_dropWhileD)
  have u1: "filter (\<lambda>c. \<not> unsafe_url_byte c) (dropWhile c0_control_or_space (u @ CHR ''?'' # q))
              = a @ CHR ''?'' # q'"
    by (simp add: dropWhile_append_stop c0_control_or_space_def unsafe_url_byte_def a_def q'_def)
  define b where "b = snd (split_scheme a)"
  have b: "CHR ''?'' \<notin> set b" "CHR ''#'' \<notin> set b"
    using a split_scheme_suffix [of a] by (auto simp: b_def)
  define d where "d = snd (netloc_part b)"
  have d: "CHR ''?'' \<notin> set d" "CHR ''#'' \<notin> set d"
    using b netloc_part_suffix [of b] by (auto simp: d_def)
  have sf: "fst (split_first (CHR ''?'') (fst (split_first (CHR ''#'') (d @ CHR ''?'' # q'))))
              = fst (split_first (CHR ''?'') (fst (split_first (CHR ''#'') d)))"
  proof -
    have 1: "takeWhile (\<lambda>x. x \<noteq> CHR ''#'') (d @ CHR ''?'' # q')
               = d @ CHR ''?'' # takeWhile (\<lambda>x. x \<noteq> CHR ''#'') q'"
      using d(2) by (simp add: takeWhile_neq_append)
    have 2: "takeWhile (\<lambda>x. x \<noteq> CHR ''#'') d = d"
      using d(2) by (auto simp: takeWhile_eq_all_conv)
    show ?thesis
      by (simp add: split_first_def 1 2 takeWhile_append_stop)
  qed
  show ?thesis
    unfolding urlsplit_def u1 a_def [symmetric]
    using sf
    by (simp add: Let_def split_scheme_query [OF a(1)] b_def [symmetric] netloc_part_query [OF b] d_def [symmetric]
        split_beta head_request_def)
qed


subsection \<open>Following redirects\<close>

lemma fst_head_probe: "fst (head_probe srv url tr) = head_response srv url"
  by (simp add: head_probe_def head_response_def split: sum.splits)

lemma head_probe_trace:
  "snd (head_probe srv url tr) =
     (case urlsplit url of Inl e \<Rightarrow> tr | Inr p \<Rightarrow> tr @ [Request (head_request p)])"
  by (simp add: head_probe_def split: sum.splits)

lemma get_redirected_url_unfold:
  "get_redirected_url srv (Suc room) url tr =
     (case head_response srv url of
        Inl e \<Rightarrow> (Inl e, snd (head_probe srv url tr))
      | Inr resp \<Rightarrow>
          if is_redirect resp
          then (case location resp of
                  None \<Rightarrow> (Inl (if room = 0 then RecursionError else TypeError),
                            snd (head_probe srv url tr))
                | Some hop \<Rightarrow> get_redirected_url srv room hop (snd (head_probe srv url tr)))
          else (Inr url, snd (head_probe srv url tr)))"
proof -
  obtain r tr1 where pr: "head_probe srv url tr = (r, tr1)"
    by (cases "head_probe srv url tr")
  then have "head_response srv url = r"
    using fst_head_probe [of srv url tr] by simp
  then show ?thesis
    by (simp add: pr is_redirect_def split: sum.splits option.splits)
qed

lemma get_redirected_url_chain:
  assumes "redirect_chain srv url hops"
    and "head_response srv (last (url # hops)) = Inr resp" and "\<not> is_redirect resp"
    and "length hops < room"
  shows "\<exists>tr'. get_redirected_url srv room url tr = (Inr (last (url # hops)), tr')"
  using assms
proof (induction hops arbitrary: url tr room)
  case Nil
  then obtain n where "room = Suc n" by (cases room) auto
  with Nil show ?case
    by (simp add: get_redirected_url_unfold del: get_redirected_url.simps(2))
next
  case (Cons hop hops)
  from Cons.prems(4) obtain n where n: "room = Suc n" "length hops < n" by (cases room) auto
  from Cons.prems(1) obtain r where r: "head_response srv url = Inr r" "is_redirect r"
      "location r = Some hop" "redirect_chain srv hop hops"
    by (auto split: sum.splits)
  from Cons.IH [OF r(4) _ _ n(2), of "snd (head_probe srv url tr)"] Cons.prems(2,3)
  obtain tr' where "get_redirected_url srv n hop (snd (head_probe srv url tr))
                      = (Inr (last (hop # hops)), tr')"
    by auto
  then show ?case
    using r n(1) by (simp add: get_redirected_url_unfold del: get_redirected_url.simps(2))
qed

lemma get_redirected_url_long_chain:
  assumes "redirect_chain srv url hops" and "room \<le> length hops"
  shows "fst (get_redirected_url srv room url tr) = Inl RecursionError
       \<and> length (snd (get_redirected_url srv room url tr)) = length tr + room"
  using assms
proof (induction room arbitrary: url hops tr)
  case 0
  then show ?case by simp
next
  case (Suc room)
  from Suc.prems(2) obtain hop rest where h: "hops = hop # rest" "room \<le> length rest"
    by (cases hops) auto
  with Suc.prems(1) obtain r where r: "head_response srv url = Inr r" "is_redirect r"
      "location r = Some hop" "redirect_chain srv hop rest"
    by (auto split: sum.splits)
  from r(1) have tr1: "length (snd (head_probe srv url tr)) = Suc (length tr)"
    by (auto simp: head_probe_trace head_response_def split: sum.splits)
  from Suc.IH [OF r(4) h(2), of "snd (head_probe srv url tr)"] r tr1 show ?case
    by (simp add: get_redirected_url_unfold del: get_redirected_url.simps(2))
qed

lemma get_redirected_url_settled:
  "get_redirected_url srv room url tr = (Inr final, tr')
     \<Longrightarrow> \<exists>resp. head_response srv final = Inr resp \<and> \<not> is_redirect resp"
proof (induction room arbitrary: url tr)
  case 0
  then show ?case by simp
next
  case (Suc room)
  from Suc.prems show ?case
    by (auto simp: get_redirected_url_unfold simp del: get_redirected_url.simps(2)
             split: sum.splits if_splits option.splits dest: Suc.IH)
qed

lemma get_redirected_url_idempotent:
  assumes "get_redirected_url srv room url tr = (Inr final, tr')"
  shows "get_redirected_url srv (Suc room2) final tr2 = (Inr final, snd (head_probe srv final tr2))"
proof -
  from get_redirected_url_settled [OF assms]
  obtain resp where "head_response srv final = Inr resp" "\<not> is_redirect resp" by blast
  then show ?thesis
    by (simp add: get_redirected_url_unfold del: get_redirected_url.simps(2))
qed

lemma get_redirected_url_requests:
  "\<exists>reqs. snd (get_redirected_url srv room url tr) = tr @ map Request reqs \<and> length reqs \<le> room"
proof (induction room arbitrary: url tr)
  case 0
  show ?case by simp
next
  case (Suc room)
  have probe: "snd (head_probe srv url tr) = tr @ map Request [] \<or>
               (\<exists>rq. snd (head_probe srv url tr) = tr @ map Request [rq])"
    by (auto simp: head_probe_trace split: sum.splits)
  have one: "\<exists>reqs. snd (head_probe srv url tr) = tr @ map Request reqs \<and> length reqs \<le> Suc room"
  proof -
    from probe show ?thesis
    proof
      assume "snd (head_probe srv url tr) = tr @ map Request []"
      then show ?thesis by (intro exI [of _ "[]"]) simp
    next
      assume "\<exists>rq. snd (head_probe srv url tr) = tr @ map Request [rq]"
      then obtain rq where "snd (head_probe srv url tr) = tr @ map Request [rq]" ..
      then show ?thesis by (intro exI [of _ "[rq]"]) simp
    qed
  qed
  show ?case
  proof (cases "head_response srv url")
    case (Inl e)
    with one show ?thesis
      by (simp add: get_redirected_url_unfold del: get_redirected_url.simps(2))
  next
    case (Inr resp)
    show ?thesis
    proof (cases "is_redirect resp \<and> location resp \<noteq> None")
      case False
      with Inr one show ?thesis
        by (auto simp: get_redirected_url_unfold simp del: get_redirected_url.simps(2))
    next
      case True
      then obtain hop where hop: "is_redirect resp" "location resp = Some hop" by auto
      from Inr obtain rq where rq: "snd (head_probe srv url tr) = tr @ [Request rq]"
        by (auto simp: head_probe_trace head_response_def split: sum.splits)
      from Suc.IH [of hop "tr @ [Request rq]"] obtain reqs
        where reqs: "snd (get_redirected_url srv room hop (tr @ [Request rq]))
                       = (tr @ [Request rq]) @ map Request reqs" "length reqs \<le> room"
        by blast
      have "snd (get_redirected_url srv (Suc room) url tr) = tr @ map Request (rq # reqs)"
        using Inr hop rq reqs(1)
        by (simp add: get_redirected_url_unfold del: get_redirected_url.simps(2))
      moreover have "length (rq # reqs) \<le> Suc room"
        using reqs(2) by simp
      ultimately show ?thesis by blast
    qed
  qed
qed

text \<open>With room for at least one call, what the function does is its body.\<close>

lemma get_redirected_url_room:
  assumes "0 < room"
  shows "get_redirected_url srv room url tr =
     (case head_response srv url of
        Inl e \<Rightarrow> (Inl e, snd (head_probe srv url tr))
      | Inr resp \<Rightarrow>
          if is_redirect resp
          then (case location resp of
                  None \<Rightarrow> (Inl (if room = 1 then RecursionError else TypeError),
                            snd (head_probe srv url tr))
                | Some hop \<Rightarrow> get_redirected_url srv (room - 1) hop (snd (head_probe srv url tr)))
          else (Inr url, snd (head_probe srv url tr)))"
proof -
  from assms obtain n where n: "room = Suc n" by (cases room) auto
  show ?thesis
    unfolding n
    by (simp add: get_redirected_url_unfold del: get_redirected_url.simps(2)
             split: sum.splits option.splits)
qed

subsection \<open>The example servers\<close>

lemmas urlsplit_eval = urlsplit_def split_scheme_def netloc_part_def splitnetloc_def
  split_first_def unbalanced_bracket_def c0_control_or_space_def unsafe_url_byte_def
  scheme_chars_def ascii_letters_def lower_char_def Let_def

lemma urlsplit_asset_url:
  "urlsplit asset_url = Inr \<lparr>scheme = ''https'', netloc = ''github.com'',
      path = ''/googlefonts/fontmake/releases/download/v3.7.0/fontmake-3.7.0-cp311-cp311-macosx_11_0_universal2.zip'',
      query = [], fragment = []\<rparr>"
  by (simp add: asset_url_def urlsplit_eval)

lemma urlsplit_signed_url:
  "urlsplit signed_url = Inr \<lparr>scheme = ''https'', netloc = ''objects.example.com'',
      path = ''/dl/fontmake.zip'', query = ''token=abc'', fragment = []\<rparr>"
  by (simp add: signed_url_def urlsplit_eval)

lemma head_response_asset_url:
  "head_response demo_srv asset_url = Inr \<lparr>status = 302, location = Some signed_url, body = None\<rparr>"
  by (simp add: head_response_def urlsplit_asset_url head_request_def demo_srv_def)

lemma head_response_signed_url:
  "head_response demo_srv signed_url = Inr \<lparr>status = 200, location = None, body = None\<rparr>"
  by (simp add: head_response_def urlsplit_signed_url head_request_def demo_srv_def)

lemma head_probe_signed_url:
  "head_probe demo_srv signed_url tr =
     (Inr \<lparr>status = 200, location = None, body = None\<rparr>,
      tr @ [Request \<lparr>meth = HEAD, host = ''objects.example.com'', target = ''/dl/fontmake.zip''\<rparr>])"
  by (simp add: head_probe_def urlsplit_signed_url head_request_def demo_srv_def)

lemma head_probe_asset_url:
  "head_probe demo_srv asset_url tr =
     (Inr \<lparr>status = 302, location = Some signed_url, body = None\<rparr>,
      tr @ [Request \<lparr>meth = HEAD, host = ''github.com'',
         target = ''/googlefonts/fontmake/releases/download/v3.7.0/fontmake-3.7.0-cp311-cp311-macosx_11_0_universal2.zip''\<rparr>])"
  by (simp add: head_probe_def urlsplit_asset_url head_request_def demo_srv_def)

lemma get_redirected_url_demo:
  "1 < room \<Longrightarrow> get_redirected_url demo_srv room asset_url tr =
     (Inr signed_url,
       tr @ [Request \<lparr>meth = HEAD, host = ''github.com'',
               target = ''/googlefonts/fontmake/releases/download/v3.7.0/fontmake-3.7.0-cp311-cp311-macosx_11_0_universal2.zip''\<rparr>,
             Request \<lparr>meth = HEAD, host = ''objects.example.com'', target = ''/dl/fontmake.zip''\<rparr>])"
  by (simp add: get_redirected_url_room head_response_asset_url head_probe_asset_url
        head_response_signed_url head_probe_signed_url is_redirect_def
      del: get_redirected_url.simps(2))

lemma head_response_loop:
  "head_response loop_srv loop_url = Inr \<lparr>status = 302, location = Some loop_url, body = None\<rparr>"
  by (simp add: head_response_def loop_srv_def loop_url_def urlsplit_eval)

lemma head_probe_loop:
  "snd (head_probe loop_srv loop_url tr)
     = tr @ [Request \<lparr>meth = HEAD, host = ''example.com'', target = ''/a''\<rparr>]"
  by (simp add: head_probe_trace loop_url_def urlsplit_eval head_request_def)

lemma redirect_chain_loop: "redirect_chain loop_srv loop_url (replicate n loop_url)"
  by (induction n) (simp_all add: head_response_loop is_redirect_def)

lemma head_response_countdown:
  "head_response countdown_srv (hops_url k)
     = (if k = 0 then Inr \<lparr>status = 200, location = None, body = None\<rparr>
        else Inr \<lparr>status = 302, location = Some (hops_url (k - 1)), body = None\<rparr>)"
proof -
  have a: "CHR ''a'' \<notin> set ''/?#''" "CHR ''a'' \<noteq> CHR ''#''" "CHR ''a'' \<noteq> CHR ''?''" by simp_all
  have tw: "takeWhile P (replicate k (CHR ''a'')) = replicate k (CHR ''a'')" if "P (CHR ''a'')" for P
    using that by (induction k) auto
  have "urlsplit (''https://hops.example/'' @ replicate k (CHR ''a''))
          = Inr \<lparr>scheme = ''https'', netloc = ''hops.example'',
                 path = CHR ''/'' # replicate k (CHR ''a''), query = [], fragment = []\<rparr>"
    by (simp add: urlsplit_eval tw filter_id_conv takeWhile_eq_all_conv dropWhile_eq_Nil_conv)
  moreover have "butlast (c # replicate (Suc n) (CHR ''a'')) = c # replicate n (CHR ''a'')" for n c
    by (induction n arbitrary: c) auto
  ultimately show ?thesis
    unfolding hops_url_def
    by (cases k) (auto simp: head_response_def head_request_def countdown_srv_def simp del: replicate_Suc butlast.simps)
qed

text \<open>The chain of redirects that leads from \<open>hops_url k\<close> to the answer 200.\<close>

lemma redirect_chain_countdown:
  "redirect_chain countdown_srv (hops_url k) (map hops_url (rev [0..<k]))"
proof (induction k)
  case 0
  show ?case by simp
next
  case (Suc k)
  then show ?case
    using head_response_countdown [of "Suc k"] by (simp add: is_redirect_def)
qed

lemma get_redirected_url_countdown:
  "fst (get_redirected_url countdown_srv room (hops_url k) tr)
     = (if k < room then Inr (hops_url 0) else Inl RecursionError)
   \<and> length (snd (get_redirected_url countdown_srv room (hops_url k) tr))
     = length tr + min (Suc k) room"
proof (cases "k < room")
  case True
  have last: "last (hops_url k # map hops_url (rev [0..<k])) = hops_url 0"
    by (cases k) (auto simp: last_map last_rev)
  have nr: "\<not> is_redirect \<lparr>status = 200, location = None, body = None\<rparr>"
    by (simp add: is_redirect_def)
  from get_redirected_url_chain [OF redirect_chain_countdown, of k _ room tr]
    head_response_countdown [of 0] last nr True
  obtain tr' where r: "get_redirected_url countdown_srv room (hops_url k) tr = (Inr (hops_url 0), tr')"
    by auto
  have "length (snd (get_redirected_url countdown_srv room (hops_url k) tr)) = length tr + Suc k"
    using True
  proof (induction k arbitrary: room tr)
    case 0
    then obtain n where "room = Suc n" by (cases room) auto
    then show ?case
      using head_response_countdown [of 0]
      by (auto simp: get_redirected_url_unfold is_redirect_def head_probe_trace head_response_def
               simp del: get_redirected_url.simps(2) split: sum.splits)
  next
    case (Suc k)
    then obtain n where n: "room = Suc n" "k < n" by (cases room) auto
    have "length (snd (head_probe countdown_srv (hops_url (Suc k)) tr)) = Suc (length tr)"
      using head_response_countdown [of "Suc k"]
      by (auto simp: head_probe_trace head_response_def split: sum.splits)
    with Suc.IH [OF n(2), of "snd (head_probe countdown_srv (hops_url (Suc k)) tr)"] n(1)
    show ?case
      using head_response_countdown [of "Suc k"]
      by (simp add: get_redirected_url_unfold is_redirect_def del: get_redirected_url.simps(2))
  qed
  with r True show ?thesis by simp
next
  case False
  then have "room \<le> length (map hops_url (rev [0..<k]))" by simp
  from get_redirected_url_long_chain [OF redirect_chain_countdown this, of tr] False
  show ?thesis by simp
qed


lemma get_redirected_url_loop:
  "get_redirected_url loop_srv room loop_url tr
     = (Inl RecursionError,
        tr @ replicate room (Request \<lparr>meth = HEAD, host = ''example.com'', target = ''/a''\<rparr>))"
proof (induction room arbitrary: tr)
  case 0
  show ?case by simp
next
  case (Suc room)
  show ?case
    by (simp add: get_redirected_url_unfold head_response_loop head_probe_loop is_redirect_def
          Suc.IH replicate_append_same del: get_redirected_url.simps(2))
qed

subsection \<open>The claims about get_redirected_url\<close>

lemma urlsplit_path_no_query:
  assumes "urlsplit url = Inr p"
  shows "CHR ''?'' \<notin> set (path p) \<and> CHR ''#'' \<notin> set (path p)"
proof -
  have 1: "c \<notin> set (takeWhile (\<lambda>x. x \<noteq> c) xs)" for c :: char and xs
    by (induction xs) auto
  have 2: "c \<notin> set xs \<Longrightarrow> c \<notin> set (takeWhile P xs)" for c :: char and xs P
    by (auto dest: set_takeWhileD)
  from assms show ?thesis
    by (auto simp: urlsplit_def Let_def split_first_def split_beta 1 2 split: if_splits)
qed

lemma head_probe_query:
  assumes "CHR ''?'' \<notin> set u" and "CHR ''#'' \<notin> set u"
  shows "head_probe srv (u @ CHR ''?'' # q) tr = head_probe srv u tr"
proof -
  have "head_probe srv url tr =
          (case map_sum id head_request (urlsplit url) of
             Inl e \<Rightarrow> (Inl e, tr) | Inr rq \<Rightarrow> (srv rq, tr @ [Request rq]))" for url
    by (simp add: head_probe_def split: sum.splits)
  then show ?thesis
    by (simp add: urlsplit_query_request [OF assms])
qed

text \<open>
  Claim C4 says that a chain of N redirects followed by a response with status 200 gives
  the URL of that response, for every N. Each redirect is a nested call, and the
  interpreter allows only so many: from a URL that is 1200 redirects away from the
  response with status 200, with room for 980 nested calls (CPython's default limit is
  1000 frames), the function ends with RecursionError.
\<close>

theorem get_redirected_url_long_chain_not_followed:
  "redirect_chain countdown_srv (hops_url 1200) (map hops_url (rev [0..<1200]))
   \<and> length (map hops_url (rev [0..<1200])) = 1200
   \<and> last (map hops_url (rev [0..<1200])) = hops_url 0
   \<and> head_response countdown_srv (hops_url 0) = Inr \<lparr>status = 200, location = None, body = None\<rparr>
   \<and> fst (get_redirected_url countdown_srv 980 (hops_url 1200) []) = Inl RecursionError"
proof -
  have "last (map hops_url (rev [0..<1200])) = hops_url 0"
    by (simp add: last_map last_rev)
  moreover have "fst (get_redirected_url countdown_srv 980 (hops_url 1200) []) = Inl RecursionError"
    using get_redirected_url_countdown [of 980 1200 "[]"] by simp
  moreover have "head_response countdown_srv (hops_url 0)
                   = Inr \<lparr>status = 200, location = None, body = None\<rparr>"
    using head_response_countdown [of 0] by simp
  moreover have "length (map hops_url (rev [0..<1200])) = 1200" by simp
  ultimately show ?thesis
    using redirect_chain_countdown [of 1200] by blast
qed

text \<open>
  Claim C4 as amended. With room for a call, \<open>get_redirected_url\<close> sends a HEAD request
  for the URL (host and target are the network location and the path of the URL); on a
  status 301, 302, 303 or 307 it calls itself on the Location header, on any other status
  it returns the URL unchanged. Hence along a chain of N redirects that ends in a
  response with status 200 it returns the last URL of the chain, provided N is less than
  the number of nested calls that fit under the interpreter's recursion limit; along a
  chain of that many redirects or more it ends with RecursionError. Calling it again
  (with room for one call) on a URL it has returned gives that URL again.
\<close>

theorem get_redirected_url_follows_chain:
  "(head_response srv url = Inr resp \<longrightarrow>
      (\<exists>p. urlsplit url = Inr p
           \<and> snd (head_probe srv url tr) = tr @ [Request \<lparr>meth = HEAD, host = netloc p, target = path p\<rparr>])
      \<and> get_redirected_url srv (Suc n) url tr =
          (if status resp \<in> {301, 302, 303, 307}
           then (case location resp of
                   None \<Rightarrow> (Inl (if n = 0 then RecursionError else TypeError),
                             snd (head_probe srv url tr))
                 | Some hop \<Rightarrow> get_redirected_url srv n hop (snd (head_probe srv url tr)))
           else (Inr url, snd (head_probe srv url tr))))
   \<and> (redirect_chain srv url hops \<and> head_response srv (last (url # hops)) = Inr final_resp
        \<and> status final_resp = 200 \<and> length hops < room \<longrightarrow>
        (\<exists>tr'. get_redirected_url srv room url tr = (Inr (last (url # hops)), tr')))
   \<and> (redirect_chain srv url hops \<and> room \<le> length hops \<longrightarrow>
        fst (get_redirected_url srv room url tr) = Inl RecursionError)
   \<and> (get_redirected_url srv room url tr = (Inr final, tr') \<and> 0 < room2 \<longrightarrow>
        (\<exists>tr3. get_redirected_url srv room2 final tr2 = (Inr final, tr3)))"
proof (intro conjI impI)
  assume r: "head_response srv url = Inr resp"
  then show "\<exists>p. urlsplit url = Inr p
           \<and> snd (head_probe srv url tr) = tr @ [Request \<lparr>meth = HEAD, host = netloc p, target = path p\<rparr>]"
    by (auto simp: head_response_def head_probe_def head_request_def split: sum.splits)
  from r show "get_redirected_url srv (Suc n) url tr =
          (if status resp \<in> {301, 302, 303, 307}
           then (case location resp of
                   None \<Rightarrow> (Inl (if n = 0 then RecursionError else TypeError),
                             snd (head_probe srv url tr))
                 | Some hop \<Rightarrow> get_redirected_url srv n hop (snd (head_probe srv url tr)))
           else (Inr url, snd (head_probe srv url tr)))"
    by (simp add: get_redirected_url_unfold is_redirect_def del: get_redirected_url.simps(2))
next
  assume "redirect_chain srv url hops \<and> head_response srv (last (url # hops)) = Inr final_resp
        \<and> status final_resp = 200 \<and> length hops < room"
  then show "\<exists>tr'. get_redirected_url srv room url tr = (Inr (last (url # hops)), tr')"
    using get_redirected_url_chain [of srv url hops final_resp room tr] by (simp add: is_redirect_def)
next
  assume "redirect_chain srv url hops \<and> room \<le> length hops"
  then show "fst (get_redirected_url srv room url tr) = Inl RecursionError"
    using get_redirected_url_long_chain [of srv url hops room tr] by simp
next
  assume a: "get_redirected_url srv room url tr = (Inr final, tr') \<and> 0 < room2"
  then obtain m where "room2 = Suc m" by (cases room2) auto
  with a get_redirected_url_idempotent [of srv room url tr final tr' m tr2]
  show "\<exists>tr3. get_redirected_url srv room2 final tr2 = (Inr final, tr3)" by blast
qed

theorem get_redirected_url_follows_chain_witness:
  "head_response demo_srv asset_url = Inr \<lparr>status = 302, location = Some signed_url, body = None\<rparr>
   \<and> redirect_chain demo_srv asset_url [signed_url]
   \<and> head_response demo_srv signed_url = Inr \<lparr>status = 200, location = None, body = None\<rparr>
   \<and> get_redirected_url demo_srv (Suc 1) asset_url []
       = get_redirected_url demo_srv 1 signed_url (snd (head_probe demo_srv asset_url []))
   \<and> (\<exists>tr'. get_redirected_url demo_srv 980 asset_url [] = (Inr signed_url, tr'))
   \<and> fst (get_redirected_url demo_srv 1 asset_url []) = Inl RecursionError
   \<and> (\<exists>tr3. get_redirected_url demo_srv 1 signed_url [] = (Inr signed_url, tr3))"
proof -
  have chain: "redirect_chain demo_srv asset_url [signed_url]"
    by (simp add: head_response_asset_url is_redirect_def)
  note inst = get_redirected_url_follows_chain
    [where srv = demo_srv and url = asset_url and tr = "[]" and hops = "[signed_url]"
       and resp = "\<lparr>status = 302, location = Some signed_url, body = None\<rparr>"
       and final_resp = "\<lparr>status = 200, location = None, body = None\<rparr>"
       and final = signed_url and ?tr2.0 = "[]" and ?room2.0 = 1]
  have 0: "get_redirected_url demo_srv (Suc 1) asset_url []
       = get_redirected_url demo_srv 1 signed_url (snd (head_probe demo_srv asset_url []))"
    using inst [where n = 1] head_response_asset_url by simp
  have 1: "\<exists>tr'. get_redirected_url demo_srv 980 asset_url [] = (Inr signed_url, tr')"
    using inst [where room = 980] chain head_response_signed_url by simp
  have 2: "fst (get_redirected_url demo_srv 1 asset_url []) = Inl RecursionError"
    using inst [where room = 1] chain by simp
  from 1 obtain tr' where "get_redirected_url demo_srv 980 asset_url [] = (Inr signed_url, tr')" ..
  with inst [where room = 980 and tr' = tr']
  have 3: "\<exists>tr3. get_redirected_url demo_srv 1 signed_url [] = (Inr signed_url, tr3)"
    by simp
  from chain 0 1 2 3 head_response_asset_url head_response_signed_url show ?thesis by blast
qed

text \<open>
  Claim C5 says that the recursion is bounded in depth, for instance at 10 hops. Nothing
  in the code counts the hops: a chain of 11 redirects is followed to its end with 12
  requests, and against a server that redirects a URL to itself, with room for 980
  nested calls, the function sends 980 requests and ends when the interpreter raises
  RecursionError.
\<close>

theorem get_redirected_url_has_no_hop_bound:
  "fst (get_redirected_url countdown_srv 980 (hops_url 11) []) = Inr (hops_url 0)
   \<and> length (snd (get_redirected_url countdown_srv 980 (hops_url 11) [])) = 12
   \<and> get_redirected_url loop_srv 980 loop_url []
       = (Inl RecursionError,
          replicate 980 (Request \<lparr>meth = HEAD, host = ''example.com'', target = ''/a''\<rparr>))"
proof -
  from get_redirected_url_countdown [of 980 11 "[]"]
  have "fst (get_redirected_url countdown_srv 980 (hops_url 11) []) = Inr (hops_url 0)"
    and "length (snd (get_redirected_url countdown_srv 980 (hops_url 11) [])) = 12"
    by simp_all
  moreover from get_redirected_url_loop [of 980 "[]"]
  have "get_redirected_url loop_srv 980 loop_url []
       = (Inl RecursionError,
          replicate 980 (Request \<lparr>meth = HEAD, host = ''example.com'', target = ''/a''\<rparr>))"
    by simp
  ultimately show ?thesis by blast
qed

text \<open>
  Claim C5 as amended. \<open>get_redirected_url\<close> ends on every input, and what bounds its
  recursion is the interpreter's recursion limit, not the code: it sends at most as many
  HEAD requests as nested calls fit under the limit, and nothing else; along a chain of
  redirects at least that long (a cyclic or unending chain is one of every length) it
  sends that many requests and ends with RecursionError; a chain that ends before is
  followed to its end, whatever its length.
\<close>

theorem get_redirected_url_bounded_by_stack:
  "(\<exists>reqs. snd (get_redirected_url srv room url tr) = tr @ map Request reqs \<and> length reqs \<le> room)
   \<and> (redirect_chain srv url hops \<and> room \<le> length hops \<longrightarrow>
        fst (get_redirected_url srv room url tr) = Inl RecursionError
        \<and> length (snd (get_redirected_url srv room url tr)) = length tr + room)
   \<and> (redirect_chain srv url hops \<and> head_response srv (last (url # hops)) = Inr resp
        \<and> \<not> is_redirect resp \<and> length hops < room \<longrightarrow>
        fst (get_redirected_url srv room url tr) = Inr (last (url # hops)))"
proof (intro conjI impI)
  show "\<exists>reqs. snd (get_redirected_url srv room url tr) = tr @ map Request reqs \<and> length reqs \<le> room"
    by (rule get_redirected_url_requests)
next
  assume a: "redirect_chain srv url hops \<and> room \<le> length hops"
  with get_redirected_url_long_chain [of srv url hops room tr]
  show "fst (get_redirected_url srv room url tr) = Inl RecursionError"
    and "length (snd (get_redirected_url srv room url tr)) = length tr + room"
    by simp_all
next
  assume "redirect_chain srv url hops \<and> head_response srv (last (url # hops)) = Inr resp
        \<and> \<not> is_redirect resp \<and> length hops < room"
  with get_redirected_url_chain [of srv url hops resp room tr]
  show "fst (get_redirected_url srv room url tr) = Inr (last (url # hops))"
    by auto
qed

theorem get_redirected_url_bounded_by_stack_witness:
  "redirect_chain loop_srv loop_url [loop_url, loop_url, loop_url]
   \<and> fst (get_redirected_url loop_srv 3 loop_url []) = Inl RecursionError
   \<and> length (snd (get_redirected_url loop_srv 3 loop_url [])) = 3
   \<and> redirect_chain countdown_srv (hops_url 2) [hops_url 1, hops_url 0]
   \<and> fst (get_redirected_url countdown_srv 3 (hops_url 2) []) = Inr (hops_url 0)"
proof -
  have c1: "redirect_chain loop_srv loop_url [loop_url, loop_url, loop_url]"
    using redirect_chain_loop [of 3] by (simp add: numeral_3_eq_3)
  have c2: "redirect_chain countdown_srv (hops_url 2) [hops_url 1, hops_url 0]"
    using redirect_chain_countdown [of 2] by (simp add: numeral_2_eq_2)
  have nr: "\<not> is_redirect \<lparr>status = 200, location = None, body = None\<rparr>"
    by (simp add: is_redirect_def)
  have e: "head_response countdown_srv (hops_url 0) = Inr \<lparr>status = 200, location = None, body = None\<rparr>"
    using head_response_countdown [of 0] by simp
  from get_redirected_url_bounded_by_stack
    [where srv = loop_srv and url = loop_url and hops = "[loop_url, loop_url, loop_url]"
       and room = 3 and tr = "[]"] c1
  have 1: "fst (get_redirected_url loop_srv 3 loop_url []) = Inl RecursionError"
    and 2: "length (snd (get_redirected_url loop_srv 3 loop_url [])) = 3"
    by simp_all
  from get_redirected_url_bounded_by_stack
    [where srv = countdown_srv and url = "hops_url 2" and hops = "[hops_url 1, hops_url 0]"
       and room = 3 and tr = "[]" and resp = "\<lparr>status = 200, location = None, body = None\<rparr>"] c2 nr e
  have 3: "fst (get_redirected_url countdown_srv 3 (hops_url 2) []) = Inr (hops_url 0)"
    by simp
  from c1 c2 1 2 3 show ?thesis by blast
qed

text \<open>
  Claim C10. The HEAD request is made of the network location and the path of the URL:
  its target has no query and no fragment, and a URL with a query is probed exactly like
  the same URL without it. The value returned is the whole string all the same: the
  input when the response is not a redirect, the Location header when a redirect leads
  to such a response (with room on the stack for the one call, or the two).
\<close>

theorem head_request_omits_query:
  "(urlsplit url = Inr p \<longrightarrow>
      head_probe srv url tr = (srv \<lparr>meth = HEAD, host = netloc p, target = path p\<rparr>,
                               tr @ [Request \<lparr>meth = HEAD, host = netloc p, target = path p\<rparr>])
      \<and> CHR ''?'' \<notin> set (path p) \<and> CHR ''#'' \<notin> set (path p))
   \<and> (CHR ''?'' \<notin> set u \<and> CHR ''#'' \<notin> set u \<longrightarrow>
        head_probe srv (u @ CHR ''?'' # q) tr = head_probe srv u tr)
   \<and> (head_response srv url = Inr resp \<and> \<not> is_redirect resp \<longrightarrow>
        get_redirected_url srv (Suc room) url tr = (Inr url, snd (head_probe srv url tr)))
   \<and> (head_response srv url = Inr resp \<and> is_redirect resp \<and> location resp = Some hop
        \<and> head_response srv hop = Inr resp2 \<and> \<not> is_redirect resp2 \<longrightarrow>
        (\<exists>tr'. get_redirected_url srv (Suc (Suc room)) url tr = (Inr hop, tr')))"
proof (intro conjI impI)
  assume p: "urlsplit url = Inr p"
  then show "head_probe srv url tr = (srv \<lparr>meth = HEAD, host = netloc p, target = path p\<rparr>,
                               tr @ [Request \<lparr>meth = HEAD, host = netloc p, target = path p\<rparr>])"
    by (simp add: head_probe_def head_request_def)
  from urlsplit_path_no_query [OF p]
  show "CHR ''?'' \<notin> set (path p)" and "CHR ''#'' \<notin> set (path p)" by simp_all
next
  assume "CHR ''?'' \<notin> set u \<and> CHR ''#'' \<notin> set u"
  then show "head_probe srv (u @ CHR ''?'' # q) tr = head_probe srv u tr"
    by (simp add: head_probe_query)
next
  assume "head_response srv url = Inr resp \<and> \<not> is_redirect resp"
  then show "get_redirected_url srv (Suc room) url tr = (Inr url, snd (head_probe srv url tr))"
    by (simp add: get_redirected_url_unfold del: get_redirected_url.simps(2))
next
  assume a: "head_response srv url = Inr resp \<and> is_redirect resp \<and> location resp = Some hop
        \<and> head_response srv hop = Inr resp2 \<and> \<not> is_redirect resp2"
  then have "redirect_chain srv url [hop]" by simp
  from get_redirected_url_chain [OF this, of resp2 "Suc (Suc room)" tr] a
  show "\<exists>tr'. get_redirected_url srv (Suc (Suc room)) url tr = (Inr hop, tr')" by simp
qed

theorem head_request_omits_query_witness:
  "urlsplit signed_url = Inr \<lparr>scheme = ''https'', netloc = ''objects.example.com'',
      path = ''/dl/fontmake.zip'', query = ''token=abc'', fragment = []\<rparr>
   \<and> head_probe demo_srv signed_url []
       = (Inr \<lparr>status = 200, location = None, body = None\<rparr>,
          [Request \<lparr>meth = HEAD, host = ''objects.example.com'', target = ''/dl/fontmake.zip''\<rparr>])
   \<and> head_probe demo_srv (''https://objects.example.com/dl/fontmake.zip'' @ CHR ''?'' # ''token=abc'') []
       = head_probe demo_srv ''https://objects.example.com/dl/fontmake.zip'' []
   \<and> get_redirected_url demo_srv (Suc 0) signed_url []
       = (Inr ''https://objects.example.com/dl/fontmake.zip?token=abc'',
               [Request \<lparr>meth = HEAD, host = ''objects.example.com'', target = ''/dl/fontmake.zip''\<rparr>])
   \<and> (\<exists>tr'. get_redirected_url demo_srv (Suc (Suc 0)) asset_url []
               = (Inr ''https://objects.example.com/dl/fontmake.zip?token=abc'', tr'))"
proof -
  note inst = head_request_omits_query
    [of signed_url "\<lparr>scheme = ''https'', netloc = ''objects.example.com'',
      path = ''/dl/fontmake.zip'', query = ''token=abc'', fragment = []\<rparr>" demo_srv "[]"
      "''https://objects.example.com/dl/fontmake.zip''" "''token=abc''"
      "\<lparr>status = 200, location = None, body = None\<rparr>" 0]
  have nr: "\<not> is_redirect \<lparr>status = 200, location = None, body = None\<rparr>"
    by (simp add: is_redirect_def)
  have 1: "head_probe demo_srv signed_url []
       = (Inr \<lparr>status = 200, location = None, body = None\<rparr>,
          [Request \<lparr>meth = HEAD, host = ''objects.example.com'', target = ''/dl/fontmake.zip''\<rparr>])"
    using inst urlsplit_signed_url by (simp add: demo_srv_def)
  have 2: "head_probe demo_srv (''https://objects.example.com/dl/fontmake.zip'' @ CHR ''?'' # ''token=abc'') []
       = head_probe demo_srv ''https://objects.example.com/dl/fontmake.zip'' []"
    using inst by simp
  have 3: "get_redirected_url demo_srv (Suc 0) signed_url []
       = (Inr signed_url, snd (head_probe demo_srv signed_url []))"
    using inst head_response_signed_url nr by blast
  have 4: "\<exists>tr'. get_redirected_url demo_srv (Suc (Suc 0)) asset_url [] = (Inr signed_url, tr')"
    using head_request_omits_query
      [of asset_url _ demo_srv "[]" "[]" "[]"
          "\<lparr>status = 302, location = Some signed_url, body = None\<rparr>" 0 signed_url
          "\<lparr>status = 200, location = None, body = None\<rparr>"]
      head_response_asset_url head_response_signed_url nr
    by (simp add: is_redirect_def del: get_redirected_url.simps(2))
  have 5: "get_redirected_url demo_srv (Suc 0) signed_url []
       = (Inr signed_url,
               [Request \<lparr>meth = HEAD, host = ''objects.example.com'', target = ''/dl/fontmake.zip''\<rparr>])"
    using 3 1 by simp
  from 1 2 5 4 urlsplit_signed_url show ?thesis
    unfolding signed_url_def by blast
qed


subsection \<open>The two requests to the release API\<close>

lemma urlsplit_latest:
  "urlsplit (GITHUB_API_URL @ ''/releases/latest'')
     = Inr \<lparr>scheme = ''https'', netloc = ''api.github.com'',
            path = ''/repos/googlefonts/fontmake/releases/latest'', query = [], fragment = []\<rparr>"
  by (simp add: GITHUB_API_URL_def urlsplit_eval)

lemma urlsplit_tags:
  "\<exists>q fr. urlsplit (GITHUB_API_URL @ ''/releases/tags/'' @ tag_name)
     = Inr \<lparr>scheme = ''https'', netloc = ''api.github.com'',
            path = target (release_request tag_name), query = q, fragment = fr\<rparr>"
  by (simp add: GITHUB_API_URL_def urlsplit_eval release_request_def takeWhile_tail)

lemma get_latest_release_tag_unfold:
  "get_latest_release_tag srv w =
     (case srv latest_request of
        Inl e \<Rightarrow> (Inl e, emit (Request latest_request) w)
      | Inr resp \<Rightarrow>
          if status resp \<noteq> 200
          then (Inr JNull, emit (Print (Failed_fetch_latest (status resp)))
                             (emit (Request latest_request) w))
          else (case body resp of
                  None \<Rightarrow> (Inl JSONDecodeError, emit (Request latest_request) w)
                | Some data \<Rightarrow>
                    (case getitem data ''tag_name'' of
                       Inl e \<Rightarrow> (Inl e, emit (Request latest_request) w)
                     | Inr version \<Rightarrow> (Inr version, emit (Request latest_request) w))))"
  by (simp add: get_latest_release_tag_def urlsplit_latest latest_request_def Let_def
      split: sum.splits option.splits)

lemma find_zip_url_unfold:
  "find_zip_url srv tag_name w =
     (case srv (release_request tag_name) of
        Inl e \<Rightarrow> (Inl e, emit (Request (release_request tag_name)) w)
      | Inr resp \<Rightarrow>
          if status resp \<noteq> 200
          then (Inr None, emit (Print (Failed_fetch_assets (status resp)))
                            (emit (Request (release_request tag_name)) w))
          else (case body resp of
                  None \<Rightarrow> (Inl JSONDecodeError, emit (Request (release_request tag_name)) w)
                | Some data \<Rightarrow>
                    (case getitem data ''assets'' of
                       Inl e \<Rightarrow> (Inl e, emit (Request (release_request tag_name)) w)
                     | Inr assets \<Rightarrow>
                         (case iter_json assets of
                            Inl e \<Rightarrow> (Inl e, emit (Request (release_request tag_name)) w)
                          | Inr asset_list \<Rightarrow>
                              (case scan_assets asset_list (FONTMAKE_ZIP (version_of tag_name)) of
                                 Inl e \<Rightarrow> (Inl e, emit (Request (release_request tag_name)) w)
                               | Inr zip_url \<Rightarrow>
                                   if \<not> truthy zip_url
                                   then (Inr None,
                                         emit (Print (Asset_not_found (FONTMAKE_ZIP (version_of tag_name))))
                                           (emit (Request (release_request tag_name)) w))
                                   else (Inr (Some zip_url),
                                         emit (Request (release_request tag_name)) w))))))"
proof -
  obtain q fr where "urlsplit (GITHUB_API_URL @ ''/releases/tags/'' @ tag_name)
     = Inr \<lparr>scheme = ''https'', netloc = ''api.github.com'',
            path = target (release_request tag_name), query = q, fragment = fr\<rparr>"
    using urlsplit_tags by blast
  moreover have "\<lparr>meth = GET, host = ''api.github.com'', target = target (release_request tag_name)\<rparr>
                   = release_request tag_name"
    by (simp add: release_request_def)
  ultimately show ?thesis
    by (simp add: find_zip_url_def Let_def split: sum.splits option.splits)
qed


lemma non_print_emit [simp]:
  "filter (\<lambda>e. \<not> is_print e) (trace (emit e w))
     = filter (\<lambda>e. \<not> is_print e) (trace w) @ (if is_print e then [] else [e])"
  by (simp add: emit_def)

lemma fs_emit [simp]: "fs (emit e w) = fs w"
  by (simp add: emit_def)

lemma trace_emit [simp]: "trace (emit e w) = trace w @ [e]"
  by (simp add: emit_def)

text \<open>
  Claim C3. When the answer to the request for the latest release has status 200 and a
  JSON body with a \<open>tag_name\<close> field, \<open>get_latest_release_tag\<close> returns the value of
  that field as it is. In every other case (another status, a body that is not JSON, a
  body without the field) it gives no tag: it returns \<open>None\<close> or raises; then \<open>main\<close>
  ends with the result 1 or the exception, the file system is unchanged, and the request
  for the latest release is the only request sent and nothing is downloaded.
\<close>

theorem get_latest_release_tag_result:
  "(srv latest_request = Inr resp \<and> status resp = 200 \<and> body resp = Some data
      \<and> getitem data ''tag_name'' = Inr v \<longrightarrow>
      get_latest_release_tag srv w = (Inr v, emit (Request latest_request) w))
   \<and> (srv latest_request = Inr resp
        \<and> (status resp \<noteq> 200 \<or> body resp = None
            \<or> (\<exists>data e. body resp = Some data \<and> getitem data ''tag_name'' = Inl e)) \<longrightarrow>
        (fst (get_latest_release_tag srv w) = Inr JNull
           \<or> (\<exists>e. fst (get_latest_release_tag srv w) = Inl e))
        \<and> (\<exists>res w'. main srv dl HERE w = (res, w') \<and> res \<noteq> Inr None
              \<and> fs w' = fs w
              \<and> filter (\<lambda>e. \<not> is_print e) (trace w')
                  = filter (\<lambda>e. \<not> is_print e) (trace w) @ [Request latest_request]))"
proof (intro conjI impI)
  assume "srv latest_request = Inr resp \<and> status resp = 200 \<and> body resp = Some data
      \<and> getitem data ''tag_name'' = Inr v"
  then show "get_latest_release_tag srv w = (Inr v, emit (Request latest_request) w)"
    by (simp add: get_latest_release_tag_unfold)
next
  assume a: "srv latest_request = Inr resp
        \<and> (status resp \<noteq> 200 \<or> body resp = None
            \<or> (\<exists>data e. body resp = Some data \<and> getitem data ''tag_name'' = Inl e))"
  then have r: "srv latest_request = Inr resp" by simp
  show "fst (get_latest_release_tag srv w) = Inr JNull
           \<or> (\<exists>e. fst (get_latest_release_tag srv w) = Inl e)"
    using a by (auto simp: get_latest_release_tag_unfold split: option.splits sum.splits)
  show "\<exists>res w'. main srv dl HERE w = (res, w') \<and> res \<noteq> Inr None
              \<and> fs w' = fs w
              \<and> filter (\<lambda>e. \<not> is_print e) (trace w')
                  = filter (\<lambda>e. \<not> is_print e) (trace w) @ [Request latest_request]"
  proof (cases "status resp \<noteq> 200")
    case True
    with r show ?thesis
      by (simp add: main_def get_latest_release_tag_unfold)
  next
    case False
    with a have "body resp = None
            \<or> (\<exists>data e. body resp = Some data \<and> getitem data ''tag_name'' = Inl e)" by simp
    with r False show ?thesis
      by (auto simp: main_def get_latest_release_tag_unfold)
  qed
qed

lemma demo_srv_latest:
  "demo_srv latest_request = Inr \<lparr>status = 200, location = None, body = Some demo_release\<rparr>"
  by (simp add: demo_srv_def latest_request_def)

lemma loop_srv_latest:
  "loop_srv latest_request = Inr \<lparr>status = 302, location = Some loop_url, body = None\<rparr>"
  by (simp add: loop_srv_def)

theorem get_latest_release_tag_result_witness:
  "get_latest_release_tag demo_srv empty_world
     = (Inr (JStr ''v3.7.0''), emit (Request latest_request) empty_world)
   \<and> fst (get_latest_release_tag loop_srv empty_world) = Inr JNull
   \<and> (\<exists>res w'. main loop_srv failing_dl [''Scripts''] empty_world = (res, w')
         \<and> res \<noteq> Inr None \<and> fs w' = fs empty_world
         \<and> filter (\<lambda>e. \<not> is_print e) (trace w') = [Request latest_request])"
proof -
  have 1: "get_latest_release_tag demo_srv empty_world
     = (Inr (JStr ''v3.7.0''), emit (Request latest_request) empty_world)"
    using get_latest_release_tag_result
      [of demo_srv "\<lparr>status = 200, location = None, body = Some demo_release\<rparr>" demo_release
          "JStr ''v3.7.0''" empty_world]
      demo_srv_latest
    by (simp add: demo_release_def)
  have 2: "\<exists>res w'. main loop_srv failing_dl [''Scripts''] empty_world = (res, w')
         \<and> res \<noteq> Inr None \<and> fs w' = fs empty_world
         \<and> filter (\<lambda>e. \<not> is_print e) (trace w')
             = filter (\<lambda>e. \<not> is_print e) (trace empty_world) @ [Request latest_request]"
    using get_latest_release_tag_result
      [of loop_srv "\<lparr>status = 302, location = Some loop_url, body = None\<rparr>" _ _ empty_world
          failing_dl "[''Scripts'']"]
      loop_srv_latest
    by simp
  have 3: "fst (get_latest_release_tag loop_srv empty_world) = Inr JNull"
    by (simp add: get_latest_release_tag_unfold loop_srv_latest)
  from 1 2 3 show ?thesis
    by (simp add: empty_world_def)
qed


lemma scan_assets_find:
  "list_all has_name assets \<Longrightarrow>
   scan_assets assets zf =
     (case find (is_named zf) assets of
        None \<Rightarrow> Inr JNull
      | Some asset \<Rightarrow> getitem asset ''browser_download_url'')"
  by (induction assets) (auto simp: has_name_def is_named_def split: sum.splits)

text \<open>
  Claim C2. The expected file name is made from the tag without one leading \<open>v\<close>. The
  loop over the assets returns the \<open>browser_download_url\<close> of the first asset whose
  name equals that file name, and \<open>None\<close> when there is none. With a non-empty URL found,
  lines 82 to 102 pass it on to the download; when no asset has the name, the function
  prints that the asset was not found and returns: the request for the release is the
  only event besides the message, and the file system is unchanged.
\<close>

theorem find_zip_url_first_match:
  "FONTMAKE_ZIP (version_of tag_name)
     = ''fontmake-'' @ (if take 1 tag_name = ''v'' then drop 1 tag_name else tag_name)
       @ ''-cp311-cp311-macosx_11_0_universal2.zip''
   \<and> (list_all has_name assets \<longrightarrow>
        scan_assets assets zf =
          (case find (is_named zf) assets of
             None \<Rightarrow> Inr JNull
           | Some asset \<Rightarrow> getitem asset ''browser_download_url''))
   \<and> (srv (release_request tag_name) = Inr resp \<and> status resp = 200 \<and> body resp = Some data
        \<and> getitem data ''assets'' = Inr (JArr assets) \<and> list_all has_name assets
        \<and> find (is_named (FONTMAKE_ZIP (version_of tag_name))) assets = Some asset
        \<and> getitem asset ''browser_download_url'' = Inr zip_url \<and> truthy zip_url \<longrightarrow>
        find_zip_url srv tag_name w = (Inr (Some zip_url), emit (Request (release_request tag_name)) w))
   \<and> (srv (release_request tag_name) = Inr resp \<and> status resp = 200 \<and> body resp = Some data
        \<and> getitem data ''assets'' = Inr (JArr assets) \<and> list_all has_name assets
        \<and> (\<forall>asset \<in> set assets. \<not> is_named (FONTMAKE_ZIP (version_of tag_name)) asset) \<longrightarrow>
        download_and_extract_zip srv dl tag_name output_dir w
          = (Inr (), w\<lparr>trace := trace w @ [Request (release_request tag_name),
                     Print (Asset_not_found (FONTMAKE_ZIP (version_of tag_name)))]\<rparr>))"
proof (intro conjI impI)
  show "FONTMAKE_ZIP (version_of tag_name)
     = ''fontmake-'' @ (if take 1 tag_name = ''v'' then drop 1 tag_name else tag_name)
       @ ''-cp311-cp311-macosx_11_0_universal2.zip''"
    by (simp add: FONTMAKE_ZIP_def version_of_def)
next
  assume "list_all has_name assets"
  then show "scan_assets assets zf =
          (case find (is_named zf) assets of
             None \<Rightarrow> Inr JNull
           | Some asset \<Rightarrow> getitem asset ''browser_download_url'')"
    by (rule scan_assets_find)
next
  assume a: "srv (release_request tag_name) = Inr resp \<and> status resp = 200 \<and> body resp = Some data
        \<and> getitem data ''assets'' = Inr (JArr assets) \<and> list_all has_name assets
        \<and> find (is_named (FONTMAKE_ZIP (version_of tag_name))) assets = Some asset
        \<and> getitem asset ''browser_download_url'' = Inr zip_url \<and> truthy zip_url"
  then have "scan_assets assets (FONTMAKE_ZIP (version_of tag_name)) = Inr zip_url"
    by (simp add: scan_assets_find)
  with a show "find_zip_url srv tag_name w
                 = (Inr (Some zip_url), emit (Request (release_request tag_name)) w)"
    by (simp add: find_zip_url_unfold)
next
  assume a: "srv (release_request tag_name) = Inr resp \<and> status resp = 200 \<and> body resp = Some data
        \<and> getitem data ''assets'' = Inr (JArr assets) \<and> list_all has_name assets
        \<and> (\<forall>asset \<in> set assets. \<not> is_named (FONTMAKE_ZIP (version_of tag_name)) asset)"
  then have "find (is_named (FONTMAKE_ZIP (version_of tag_name))) assets = None"
    by (simp add: find_None_iff)
  with a have "scan_assets assets (FONTMAKE_ZIP (version_of tag_name)) = Inr JNull"
    by (simp add: scan_assets_find)
  with a have "find_zip_url srv tag_name w
      = (Inr None, emit (Print (Asset_not_found (FONTMAKE_ZIP (version_of tag_name))))
                     (emit (Request (release_request tag_name)) w))"
    by (simp add: find_zip_url_unfold)
  then show "download_and_extract_zip srv dl tag_name output_dir w
          = (Inr (), w\<lparr>trace := trace w @ [Request (release_request tag_name),
                     Print (Asset_not_found (FONTMAKE_ZIP (version_of tag_name)))]\<rparr>)"
    by (simp add: download_and_extract_zip_def Let_def emit_def)
qed

lemma demo_srv_release:
  "demo_srv (release_request ''v3.7.0'')
     = Inr \<lparr>status = 200, location = None, body = Some demo_release\<rparr>"
  by (simp add: demo_srv_def release_request_def unsafe_url_byte_def)

lemma zip_name_demo:
  "FONTMAKE_ZIP (version_of ''v3.7.0'') = ''fontmake-3.7.0-cp311-cp311-macosx_11_0_universal2.zip''"
  "FONTMAKE_ZIP (version_of ''3.7.0'') = ''fontmake-3.7.0-cp311-cp311-macosx_11_0_universal2.zip''"
  by (simp_all add: FONTMAKE_ZIP_def version_of_def)


theorem find_zip_url_first_match_witness:
  "scan_assets demo_assets ''fontmake-3.7.0-cp311-cp311-macosx_11_0_universal2.zip''
     = Inr (JStr asset_url)
   \<and> find_zip_url demo_srv ''v3.7.0'' empty_world
       = (Inr (Some (JStr asset_url)), emit (Request (release_request ''v3.7.0'')) empty_world)
   \<and> download_and_extract_zip any_release_srv failing_dl ''v3.6.0'' [''Scripts''] empty_world
       = (Inr (), empty_world\<lparr>trace := [Request (release_request ''v3.6.0''),
            Print (Asset_not_found ''fontmake-3.6.0-cp311-cp311-macosx_11_0_universal2.zip'')]\<rparr>)"
proof -
  have names: "list_all has_name demo_assets"
    by (simp add: demo_assets_def has_name_def)
  have found: "find (is_named ''fontmake-3.7.0-cp311-cp311-macosx_11_0_universal2.zip'') demo_assets
      = Some (JObj [(''name'', JStr ''fontmake-3.7.0-cp311-cp311-macosx_11_0_universal2.zip''),
                    (''browser_download_url'', JStr asset_url)])"
    by (simp add: demo_assets_def is_named_def)
  have absent: "\<forall>asset \<in> set demo_assets.
      \<not> is_named ''fontmake-3.6.0-cp311-cp311-macosx_11_0_universal2.zip'' asset"
    by (simp add: demo_assets_def is_named_def)
  have assets: "getitem demo_release ''assets'' = Inr (JArr demo_assets)"
    by (simp add: demo_release_def)
  have z36: "FONTMAKE_ZIP (version_of ''v3.6.0'') = ''fontmake-3.6.0-cp311-cp311-macosx_11_0_universal2.zip''"
    by (simp add: FONTMAKE_ZIP_def version_of_def)
  have url: "asset_url \<noteq> []"
    by (simp add: asset_url_def)
  have 1: "scan_assets demo_assets ''fontmake-3.7.0-cp311-cp311-macosx_11_0_universal2.zip''
     = Inr (JStr asset_url)"
    using find_zip_url_first_match [where assets = demo_assets
        and zf = "''fontmake-3.7.0-cp311-cp311-macosx_11_0_universal2.zip''"] names found
    by simp
  have 2: "find_zip_url demo_srv ''v3.7.0'' empty_world
       = (Inr (Some (JStr asset_url)), emit (Request (release_request ''v3.7.0'')) empty_world)"
    using find_zip_url_first_match [where tag_name = "''v3.7.0''" and assets = demo_assets
        and srv = demo_srv
        and resp = "\<lparr>status = 200, location = None, body = Some demo_release\<rparr>"
        and data = demo_release
        and asset = "JObj [(''name'', JStr ''fontmake-3.7.0-cp311-cp311-macosx_11_0_universal2.zip''),
               (''browser_download_url'', JStr asset_url)]"
        and zip_url = "JStr asset_url" and w = empty_world]
      names found assets demo_srv_release zip_name_demo(1) url
    by simp
  have 3: "download_and_extract_zip any_release_srv failing_dl ''v3.6.0'' [''Scripts''] empty_world
       = (Inr (), empty_world\<lparr>trace := trace empty_world @ [Request (release_request ''v3.6.0''),
            Print (Asset_not_found (FONTMAKE_ZIP (version_of ''v3.6.0'')))]\<rparr>)"
    using find_zip_url_first_match [where tag_name = "''v3.6.0''" and assets = demo_assets
        and srv = any_release_srv
        and resp = "\<lparr>status = 200, location = None, body = Some demo_release\<rparr>"
        and data = demo_release and dl = failing_dl and output_dir = "[''Scripts'']"
        and w = empty_world]
      names absent assets z36
    by (simp add: any_release_srv_def)
  from 1 2 3 z36 show ?thesis
    by (simp add: empty_world_def)
qed


subsection \<open>The paths of the installer\<close>

lemma split_on_parts_no_sep: "p \<in> set (split_on c s) \<Longrightarrow> c \<notin> set p"
proof (induction s arbitrary: p)
  case Nil
  then show ?case by simp
next
  case (Cons x xs)
  then show ?case
    by (cases "split_on c xs") (auto split: if_splits)
qed

lemma split_on_append_tail:
  "c \<notin> set t \<Longrightarrow> split_on c (x @ t) = butlast (split_on c x) @ [last (split_on c x) @ t]"
proof (induction x)
  case Nil
  then show ?case by (simp add: split_on_no_sep)
next
  case (Cons a x)
  then show ?case
    using split_on_not_Nil [of c x]
    by (cases "split_on c x") (auto split: list.splits)
qed

lemma path_parts_tail:
  assumes "CHR ''/'' \<notin> set t" and "t \<noteq> []" and "t \<noteq> ''.''"
  shows "path_parts (x @ t)
           = filter (\<lambda>x. x \<noteq> [] \<and> x \<noteq> ''.'') (butlast (split_on (CHR ''/'') x))
             @ [last (split_on (CHR ''/'') x) @ t]"
proof -
  have "last (split_on (CHR ''/'') x) @ t \<noteq> ''.''"
    using assms(2,3) by (cases "last (split_on (CHR ''/'') x)") auto
  then show ?thesis
    using assms(1,2) by (simp add: path_parts_def split_on_append_tail)
qed

lemma path_parts_single:
  "CHR ''/'' \<notin> set s \<Longrightarrow> s \<noteq> [] \<Longrightarrow> s \<noteq> ''.'' \<Longrightarrow> path_parts s = [s]"
  by (simp add: path_parts_def split_on_no_sep)

lemma joinpath_single:
  "CHR ''/'' \<notin> set s \<Longrightarrow> s \<noteq> [] \<Longrightarrow> s \<noteq> ''.'' \<Longrightarrow> joinpath d s = d @ [s]"
  by (cases s) (auto simp: joinpath_def path_parts_single)

lemma stem_zip: "s \<noteq> [] \<Longrightarrow> stem (d @ [s @ ''.zip'']) = s"
proof -
  assume ne: "s \<noteq> []"
  have "takeWhile (\<lambda>c. c \<noteq> CHR ''.'') (rev (s @ ''.zip'')) = ''piz''"
    by simp
  then show ?thesis
    using ne by (simp add: stem_def Let_def del: rev_append)
qed

text \<open>
  The paths for any tag: the tag may have slashes, and then the archive file and the
  artifact lie in the same directory below the output directory, while the directory
  the archive is expected to unpack to lies in the output directory itself.
\<close>

lemma installer_paths:
  "\<exists>ds l. CHR ''/'' \<notin> set l
     \<and> zip_path_of out t = out @ ds @ [l @ ''-cp311-cp311-macosx_11_0_universal2.zip'']
     \<and> top_dir_of out t = l @ ''-cp311-cp311-macosx_11_0_universal2''
     \<and> extracted_dir_of out t = out @ [l @ ''-cp311-cp311-macosx_11_0_universal2'']
     \<and> fontmake_exe_of out t = out @ [l @ ''-cp311-cp311-macosx_11_0_universal2'', ''fontmake'']
     \<and> pyz_path_of out t = out @ ds @ [l @ ''.pyz'']"
proof -
  define x where "x = ''fontmake-'' @ version_of t"
  define ds where "ds = filter (\<lambda>x. x \<noteq> [] \<and> x \<noteq> ''.'') (butlast (split_on (CHR ''/'') x))"
  define l where "l = last (split_on (CHR ''/'') x)"
  have l: "CHR ''/'' \<notin> set l"
    unfolding l_def using split_on_parts_no_sep [of _ "CHR ''/''" x] split_on_not_Nil [of "CHR ''/''" x]
    by (meson last_in_set)
  have zn: "FONTMAKE_ZIP (version_of t) = x @ ''-cp311-cp311-macosx_11_0_universal2.zip''"
    and pn: "pyz_name (version_of t) = x @ ''.pyz''"
    by (simp_all add: FONTMAKE_ZIP_def pyz_name_def x_def)
  have zp: "zip_path_of out t = out @ ds @ [l @ ''-cp311-cp311-macosx_11_0_universal2.zip'']"
    unfolding zip_path_of_def zn
    by (simp add: joinpath_def x_def [symmetric] path_parts_tail ds_def l_def) (simp add: x_def)
  have pz: "pyz_path_of out t = out @ ds @ [l @ ''.pyz'']"
    unfolding pyz_path_of_def pn
    by (simp add: joinpath_def x_def [symmetric] path_parts_tail ds_def l_def) (simp add: x_def)
  have "l @ ''-cp311-cp311-macosx_11_0_universal2.zip''
          = (l @ ''-cp311-cp311-macosx_11_0_universal2'') @ ''.zip''"
    by simp
  then have "stem ((out @ ds) @ [l @ ''-cp311-cp311-macosx_11_0_universal2.zip''])
          = l @ ''-cp311-cp311-macosx_11_0_universal2''"
    using stem_zip [of "l @ ''-cp311-cp311-macosx_11_0_universal2''" "out @ ds"] by simp
  then have td: "top_dir_of out t = l @ ''-cp311-cp311-macosx_11_0_universal2''"
    by (simp add: top_dir_of_def zp)
  have ed: "extracted_dir_of out t = out @ [l @ ''-cp311-cp311-macosx_11_0_universal2'']"
    unfolding extracted_dir_of_def td using l by (intro joinpath_single) auto
  have fe: "fontmake_exe_of out t = out @ [l @ ''-cp311-cp311-macosx_11_0_universal2'', ''fontmake'']"
    unfolding fontmake_exe_of_def ed using joinpath_single [of "''fontmake''"] by simp
  from l zp td ed fe pz show ?thesis by blast
qed

lemma installer_paths_facts:
  "extracted_dir_of out t = out @ [top_dir_of out t]"
  "fontmake_exe_of out t = out @ [top_dir_of out t, ''fontmake'']"
  "pyz_path_of out t \<noteq> zip_path_of out t"
  "fontmake_exe_of out t \<noteq> pyz_path_of out t"
  "extracted_dir_of out t \<noteq> pyz_path_of out t"
  "extracted_dir_of out t \<noteq> zip_path_of out t"
  "prefix (extracted_dir_of out t) (pyz_path_of out t) \<Longrightarrow> prefix (extracted_dir_of out t) (zip_path_of out t)"
  "prefix out (butlast (zip_path_of out t))"
  "\<not> prefix (zip_path_of out t) out"
proof -
  let ?s = "''-cp311-cp311-macosx_11_0_universal2''"
  from installer_paths [of out t] obtain ds l where
    zp: "zip_path_of out t = out @ ds @ [l @ ''-cp311-cp311-macosx_11_0_universal2.zip'']"
    and td: "top_dir_of out t = l @ ?s"
    and ed: "extracted_dir_of out t = out @ [l @ ?s]"
    and fe: "fontmake_exe_of out t = out @ [l @ ?s, ''fontmake'']"
    and pz: "pyz_path_of out t = out @ ds @ [l @ ''.pyz'']"
    by blast
  show "extracted_dir_of out t = out @ [top_dir_of out t]"
    by (simp add: ed td)
  show "fontmake_exe_of out t = out @ [top_dir_of out t, ''fontmake'']"
    by (simp add: fe td)
  show "pyz_path_of out t \<noteq> zip_path_of out t"
    by (simp add: zp pz)
  show "fontmake_exe_of out t \<noteq> pyz_path_of out t"
  proof
    assume "fontmake_exe_of out t = pyz_path_of out t"
    then have "last [l @ ?s, ''fontmake''] = last (ds @ [l @ ''.pyz''])"
      unfolding fe pz by simp
    then have "last ''fontmake'' = last (l @ ''.pyz'')" by simp
    then show False by simp
  qed
  have snoc: "[a] = ds @ [b] \<Longrightarrow> a = b" for a b :: string
    by (cases ds) auto
  show "extracted_dir_of out t \<noteq> pyz_path_of out t"
    using snoc [of "l @ ?s" "l @ ''.pyz''"] by (auto simp: ed pz)
  show "extracted_dir_of out t \<noteq> zip_path_of out t"
    using snoc [of "l @ ?s" "l @ ''-cp311-cp311-macosx_11_0_universal2.zip''"] by (auto simp: ed zp)
  show "prefix (extracted_dir_of out t) (zip_path_of out t)"
    if "prefix (extracted_dir_of out t) (pyz_path_of out t)"
  proof (cases ds)
    case Nil
    with that show ?thesis by (simp add: ed pz)
  next
    case (Cons d ds')
    with that show ?thesis by (simp add: ed pz zp)
  qed
  have "butlast (zip_path_of out t) = out @ ds"
    unfolding zp by (simp add: butlast_append)
  then show "prefix out (butlast (zip_path_of out t))" by simp
  show "\<not> prefix (zip_path_of out t) out"
    by (auto simp: zp dest: prefix_length_le)
qed

subsection \<open>What extraction changes\<close>

lemma makedirs_from_local:
  "makedirs_from f pre cs = Inr f' \<Longrightarrow> f' p \<noteq> f p \<Longrightarrow>
     f p = None \<and> f' p = Some Dir \<and> prefix p (pre @ cs) \<and> length pre < length p"
proof (induction cs arbitrary: f pre)
  case Nil
  then show ?case by simp
next
  case (Cons c cs)
  show ?case
  proof (cases "f (pre @ [c])")
    case None
    with Cons.prems(1) have rec: "makedirs_from (f(pre @ [c] \<mapsto> Dir)) (pre @ [c]) cs = Inr f'"
      by simp
    show ?thesis
    proof (cases "f' p = (f(pre @ [c] \<mapsto> Dir)) p")
      case True
      with Cons.prems(2) have "p = pre @ [c]" by (auto split: if_splits)
      with True None show ?thesis by simp
    next
      case False
      from Cons.IH [OF rec False] show ?thesis
        by (auto split: if_splits)
    qed
  next
    case (Some n)
    with Cons.prems(1) obtain "n = Dir" and rec: "makedirs_from f (pre @ [c]) cs = Inr f'"
      by (cases n) auto
    from Cons.IH [OF rec Cons.prems(2)] show ?thesis by auto
  qed
qed

lemma extract_member_local:
  assumes "extract_member ms dir f n = Inr f'" and "f' p \<noteq> f p"
  shows "p \<noteq> [] \<and> prefix p (dir @ member_parts n) \<and> f p \<noteq> Some Dir
       \<and> (f' p = Some Dir
           \<or> (p = dir @ member_parts n \<and> \<not> member_is_dir n
               \<and> (\<exists>d. map_of (rev ms) n = Some d \<and> f' p = Some (File d))))"
proof -
  let ?t = "dir @ member_parts n"
  from assms(1) obtain f1 where f1: "makedirs_from f [] (butlast ?t) = Inr f1"
    and rest: "(if member_is_dir n
          then (if is_dir f1 ?t then Inr f1 else mkdir f1 ?t)
          else (case map_of (rev ms) n of
                  None \<Rightarrow> Inl KeyError
                | Some d \<Rightarrow> write_file f1 ?t d)) = Inr f'"
    by (auto simp: extract_member_def Let_def split: sum.splits)
  have pb: "prefix (butlast ?t) ?t"
    by (metis append_butlast_last_id butlast.simps(1) prefixI prefix_order.order_refl)
  show ?thesis
  proof (cases "f1 p = f p")
    case False
    then have "f1 p \<noteq> f p" .
    from makedirs_from_local [OF f1 this]
    have a: "f p = None" "f1 p = Some Dir" "prefix p (butlast ?t)" "p \<noteq> []"
      by auto
    have "f' p = Some Dir"
      using rest a(2,3) pb
      by (auto simp: mkdir_def write_file_def is_dir_def split: if_splits option.splits
               dest: prefix_order.antisym)
    with a pb show ?thesis
      by (auto intro: prefix_order.trans)
  next
    case True
    with assms(2) have ch: "f' p \<noteq> f1 p" by simp
    with rest have "p = ?t \<and> p \<noteq> [] \<and> f1 p \<noteq> Some Dir
        \<and> (f' p = Some Dir \<or> (\<not> member_is_dir n
               \<and> (\<exists>d. map_of (rev ms) n = Some d \<and> f' p = Some (File d))))"
      by (auto simp: mkdir_def write_file_def is_dir_def split: if_splits option.splits)
    with True show ?thesis
      by auto
  qed
qed

lemma extract_names_local:
  assumes "extract_names ms dir ns f = (Inr (), f')" and "f' p \<noteq> f p"
  shows "p \<noteq> [] \<and> f p \<noteq> Some Dir
       \<and> (\<exists>n \<in> set ns. prefix p (dir @ member_parts n)
             \<and> (f' p = Some Dir
                 \<or> (p = dir @ member_parts n \<and> \<not> member_is_dir n
                     \<and> (\<exists>d. map_of (rev ms) n = Some d \<and> f' p = Some (File d)))))"
  using assms
proof (induction ns arbitrary: f)
  case Nil
  then show ?case by simp
next
  case (Cons n ns)
  from Cons.prems(1) obtain f1 where m: "extract_member ms dir f n = Inr f1"
    and rec: "extract_names ms dir ns f1 = (Inr (), f')"
    by (auto split: sum.splits)
  show ?case
  proof (cases "f' p = f1 p")
    case True
    with Cons.prems(2) have "f1 p \<noteq> f p" by simp
    from extract_member_local [OF m this] True show ?thesis by auto
  next
    case False
    from Cons.IH [OF rec False] have later: "p \<noteq> [] \<and> f1 p \<noteq> Some Dir
       \<and> (\<exists>n \<in> set ns. prefix p (dir @ member_parts n)
             \<and> (f' p = Some Dir
                 \<or> (p = dir @ member_parts n \<and> \<not> member_is_dir n
                     \<and> (\<exists>d. map_of (rev ms) n = Some d \<and> f' p = Some (File d)))))" .
    have "f p \<noteq> Some Dir"
    proof
      assume d: "f p = Some Dir"
      with later have "f1 p \<noteq> f p" by auto
      from extract_member_local [OF m this] d show False by simp
    qed
    with later show ?thesis by auto
  qed
qed


lemma makedirs_from_keeps_file:
  "makedirs_from f pre cs = Inr f' \<Longrightarrow> is_file f p \<Longrightarrow> is_file f' p"
  using makedirs_from_local [of f pre cs f' p]
  by (cases "f' p = f p") (auto simp: is_file_def)

lemma extract_member_keeps_file:
  assumes "extract_member ms dir f n = Inr f'" and "is_file f p"
  shows "is_file f' p"
proof -
  let ?t = "dir @ member_parts n"
  from assms(1) obtain f1 where f1: "makedirs_from f [] (butlast ?t) = Inr f1"
    and rest: "(if member_is_dir n
          then (if is_dir f1 ?t then Inr f1 else mkdir f1 ?t)
          else (case map_of (rev ms) n of
                  None \<Rightarrow> Inl KeyError
                | Some d \<Rightarrow> write_file f1 ?t d)) = Inr f'"
    by (auto simp: extract_member_def Let_def split: sum.splits)
  from makedirs_from_keeps_file [OF f1 assms(2)] have "is_file f1 p" .
  with rest show ?thesis
    by (auto simp: mkdir_def write_file_def is_file_def split: if_splits option.splits)
qed

lemma extract_names_keeps_file:
  "extract_names ms dir ns f = (Inr (), f') \<Longrightarrow> is_file f p \<Longrightarrow> is_file f' p"
proof (induction ns arbitrary: f)
  case Nil
  then show ?case by simp
next
  case (Cons n ns)
  from Cons.prems(1) obtain f1 where m: "extract_member ms dir f n = Inr f1"
    and rec: "extract_names ms dir ns f1 = (Inr (), f')"
    by (auto split: sum.splits)
  from Cons.IH [OF rec extract_member_keeps_file [OF m Cons.prems(2)]] show ?case .
qed

lemma extract_member_writes_file:
  assumes "extract_member ms dir f n = Inr f'" and "\<not> member_is_dir n"
  shows "\<exists>d. map_of (rev ms) n = Some d \<and> f' (dir @ member_parts n) = Some (File d)"
  using assms
  by (auto simp: extract_member_def Let_def write_file_def split: sum.splits option.splits if_splits)

text \<open>
  After a successful extraction, the file at the target of a file member holds the data
  of a file member with that target.
\<close>

lemma extract_names_file_from_archive:
  assumes "extract_names ms dir ns f = (Inr (), f')"
    and "\<exists>n \<in> set ns. \<not> member_is_dir n \<and> member_parts n = ps"
  shows "\<exists>n \<in> set ns. \<not> member_is_dir n \<and> member_parts n = ps
           \<and> (\<exists>d. map_of (rev ms) n = Some d \<and> f' (dir @ ps) = Some (File d))"
  using assms
proof (induction ns arbitrary: f)
  case Nil
  then show ?case by simp
next
  case (Cons n ns)
  from Cons.prems(1) obtain f1 where m: "extract_member ms dir f n = Inr f1"
    and rec: "extract_names ms dir ns f1 = (Inr (), f')"
    by (auto split: sum.splits)
  show ?case
  proof (cases "\<exists>n \<in> set ns. \<not> member_is_dir n \<and> member_parts n = ps")
    case True
    from Cons.IH [OF rec True] show ?thesis by auto
  next
    case False
    with Cons.prems(2) have n: "\<not> member_is_dir n" "member_parts n = ps" by auto
    from extract_member_writes_file [OF m n(1)] n(2)
    obtain d where d: "map_of (rev ms) n = Some d" "f1 (dir @ ps) = Some (File d)" by auto
    have "f' (dir @ ps) = f1 (dir @ ps)"
    proof (rule ccontr)
      assume ch: "f' (dir @ ps) \<noteq> f1 (dir @ ps)"
      from extract_names_keeps_file [OF rec, of "dir @ ps"] d(2)
      have "is_file f' (dir @ ps)" by (simp add: is_file_def)
      with extract_names_local [OF rec ch] False show False
        by (auto simp: is_file_def)
    qed
    with d n show ?thesis by auto
  qed
qed

lemma prefix_beyond:
  assumes "prefix p (a @ x # r)" and "\<not> prefix p a"
  shows "prefix (a @ [x]) p"
proof -
  from assms obtain us where us: "p = a @ us" "prefix us (x # r)"
    by (auto simp: prefix_append)
  with assms(2) have "us \<noteq> []" by auto
  with us(2) obtain us' where "us = x # us'" by (cases us) auto
  with us(1) show ?thesis by simp
qed

text \<open>
  An archive whose members all lie in one directory changes nothing outside that
  directory, when the directory it is extracted to exists.
\<close>

lemma extract_names_under:
  assumes ex: "extract_names ms dir ns f = (Inr (), f')"
    and under: "\<forall>n \<in> set ns. take 1 (member_parts n) = [topdir]"
    and dirs: "dir_exists f dir"
    and out: "\<not> prefix (dir @ [topdir]) p"
  shows "f' p = f p"
proof (rule ccontr)
  assume ch: "f' p \<noteq> f p"
  from extract_names_local [OF ex ch] obtain n where n: "n \<in> set ns"
    "prefix p (dir @ member_parts n)" and p: "p \<noteq> []" "f p \<noteq> Some Dir"
    by auto
  from under n(1) obtain r where r: "member_parts n = topdir # r"
    by (cases "member_parts n") auto
  from p dirs have "\<not> prefix p dir"
    by (auto simp: dir_exists_def)
  from prefix_beyond [OF n(2) [unfolded r] this] out show False by simp
qed

subsection \<open>The stages of download_and_extract_zip\<close>

lemma find_zip_url_Some:
  assumes "find_zip_url srv tag_name w = (Inr (Some zip_url), w1)"
  shows "w1 = emit (Request (release_request tag_name)) w"
  using assms
  by (auto simp: find_zip_url_unfold split: sum.splits option.splits if_splits)

lemma find_zip_url_None:
  assumes "find_zip_url srv tag_name w = (Inr None, w1)"
  shows "fs w1 = fs w \<and> (\<exists>m. last (trace w1) = Print m \<and> m \<noteq> Extracted_to output_dir)"
  using assms
  by (auto simp: find_zip_url_unfold split: sum.splits option.splits if_splits)

lemma write_file_error: "write_file f p c = Inl e \<Longrightarrow> e = OSError"
  by (auto simp: write_file_def split: if_splits)

lemma write_file_Inr:
  "write_file f p c = Inr f' \<Longrightarrow> f' = f(p \<mapsto> File c) \<and> dir_exists f (butlast p) \<and> p \<noteq> []"
  by (auto simp: write_file_def split: if_splits)

lemma fetch_zip_unfold:
  assumes "get_redirected_url srv (stack_room w) u (trace w @ [Print (Downloading (JStr u))])
             = (Inr final_url, tr)"
  shows "fetch_zip srv dl (JStr u) zp w =
           (case dl final_url of
              Http_error code \<Rightarrow>
                (Inr False, w\<lparr>trace := tr @ [Retrieve final_url zp,
                                              Print (Failed_download final_url code)]\<rparr>)
            | Transfer_error None \<Rightarrow>
                (Inl URLError, w\<lparr>trace := tr @ [Retrieve final_url zp]\<rparr>)
            | Transfer_error (Some partial) \<Rightarrow>
                (case write_file (fs w) zp partial of
                   Inl e \<Rightarrow> (Inl e, w\<lparr>trace := tr @ [Retrieve final_url zp]\<rparr>)
                 | Inr f1 \<Rightarrow> (Inl URLError, w\<lparr>fs := f1, trace := tr @ [Retrieve final_url zp]\<rparr>))
            | Retrieved c \<Rightarrow>
                (case write_file (fs w) zp c of
                   Inl e \<Rightarrow> (Inl e, w\<lparr>trace := tr @ [Retrieve final_url zp]\<rparr>)
                 | Inr f1 \<Rightarrow> (Inr True, w\<lparr>fs := f1, trace := tr @ [Retrieve final_url zp]\<rparr>)))"
  using assms
  by (cases w)
     (auto simp: fetch_zip_def urlretrieve_def Let_def emit_def
           split: retrieval.splits option.splits sum.splits py_error.splits
           dest: write_file_error)

text \<open>
  The function from line 113 on, when the asset was found, its URL resolved and the
  download delivered a file, and with the paths named.
\<close>

lemma download_and_extract_zip_retrieved:
  assumes "find_zip_url srv tag_name w = (Inr (Some (JStr u)), w1)"
    and "get_redirected_url srv (stack_room w) u (trace w1 @ [Print (Downloading (JStr u))])
           = (Inr final_url, tr)"
    and "dl final_url = Retrieved c"
  shows "download_and_extract_zip srv dl tag_name output_dir w =
           (case write_file (fs w) (zip_path_of output_dir tag_name) c of
              Inl e \<Rightarrow> (Inl e, w\<lparr>trace := tr @ [Retrieve final_url (zip_path_of output_dir tag_name)]\<rparr>)
            | Inr f1 \<Rightarrow>
                unpack (version_of tag_name) (zip_path_of output_dir tag_name) output_dir
                  (w\<lparr>fs := f1, trace := tr @ [Retrieve final_url (zip_path_of output_dir tag_name)]\<rparr>))"
proof -
  from find_zip_url_Some [OF assms(1)] have w1: "w1 = emit (Request (release_request tag_name)) w" .
  then have r: "get_redirected_url srv (stack_room w1) u (trace w1 @ [Print (Downloading (JStr u))])
           = (Inr final_url, tr)"
    using assms(2) by (simp add: emit_def)
  show ?thesis
    using assms(1,3)
    by (simp add: download_and_extract_zip_def Let_def fetch_zip_unfold [OF r] zip_path_of_def
          split: sum.splits)
       (simp add: w1 emit_def)
qed

lemma unpack_unfold:
  "unpack (version_of tag_name) (zip_path_of output_dir tag_name) output_dir w =
     (case open_zip (fs w) (zip_path_of output_dir tag_name) of
        Inl e \<Rightarrow> (Inl e, w)
      | Inr ms \<Rightarrow>
          (case extractall ms output_dir (fs w) of
             (Inl e, f1) \<Rightarrow> (Inl e, w\<lparr>fs := f1\<rparr>)
           | (Inr u, f1) \<Rightarrow>
               if \<not> is_dir f1 (extracted_dir_of output_dir tag_name)
               then (Inr (), w\<lparr>fs := f1,
                       trace := trace w @ [Print (Failed_extract (zip_path_of output_dir tag_name))]\<rparr>)
               else if \<not> is_file f1 (fontmake_exe_of output_dir tag_name)
               then (Inr (), w\<lparr>fs := f1,
                       trace := trace w @ [Print (No_fontmake (extracted_dir_of output_dir tag_name))]\<rparr>)
               else
                 (case rename f1 (locked w) (fontmake_exe_of output_dir tag_name)
                         (pyz_path_of output_dir tag_name) of
                    Inl e \<Rightarrow> (Inl e, w\<lparr>fs := f1\<rparr>)
                  | Inr f2 \<Rightarrow>
                      (case unlink (rmtree f2 (locked w) (extracted_dir_of output_dir tag_name))
                              (locked w) (zip_path_of output_dir tag_name) of
                         Inl e \<Rightarrow> (Inl e, w\<lparr>fs := rmtree f2 (locked w) (extracted_dir_of output_dir tag_name),
                                     trace := trace w @ [Print (Extracted_to output_dir)]\<rparr>)
                       | Inr f4 \<Rightarrow> (Inr (), w\<lparr>fs := f4,
                                     trace := trace w @ [Print (Extracted_to output_dir)]\<rparr>)))))"
  by (cases w)
     (simp add: unpack_def Let_def extracted_dir_of_def top_dir_of_def fontmake_exe_of_def
        pyz_path_of_def emit_def split: sum.splits prod.splits)

text \<open>
  Claim C8. When the asset was found and its URL resolved, and the transfer then fails
  (the server answers with an error status, or the transfer breaks after some bytes or
  none), the function ends there: after an HTTP error it prints the failure and returns,
  otherwise the exception leaves it; the last event of the run is the call of
  \<open>urlretrieve\<close> (followed only by the message); and the file system is the one it
  started with, but for the partial file if one was written: nothing is extracted,
  renamed or deleted.
\<close>

theorem failed_transfer_stops_install:
  assumes "find_zip_url srv tag_name w = (Inr (Some (JStr u)), w1)"
    and "get_redirected_url srv (stack_room w) u (trace w1 @ [Print (Downloading (JStr u))])
           = (Inr final_url, tr)"
    and "dl final_url = Http_error code \<or> dl final_url = Transfer_error partial"
  shows "\<exists>res w'. download_and_extract_zip srv dl tag_name output_dir w = (res, w')
     \<and> (dl final_url = Http_error code \<longrightarrow>
           res = Inr () \<and> fs w' = fs w
           \<and> trace w' = tr @ [Retrieve final_url (joinpath output_dir (FONTMAKE_ZIP (version_of tag_name))),
                               Print (Failed_download final_url code)])
     \<and> (dl final_url = Transfer_error partial \<longrightarrow>
           (\<exists>e. res = Inl e)
           \<and> trace w' = tr @ [Retrieve final_url (joinpath output_dir (FONTMAKE_ZIP (version_of tag_name)))]
           \<and> fs w' = (case partial of
                        None \<Rightarrow> fs w
                      | Some c \<Rightarrow>
                          (case write_file (fs w) (joinpath output_dir (FONTMAKE_ZIP (version_of tag_name))) c of
                             Inl e \<Rightarrow> fs w
                           | Inr f1 \<Rightarrow> f1)))"
proof -
  from find_zip_url_Some [OF assms(1)] have w1: "w1 = emit (Request (release_request tag_name)) w" .
  then have r: "get_redirected_url srv (stack_room w1) u (trace w1 @ [Print (Downloading (JStr u))])
           = (Inr final_url, tr)"
    using assms(2) by (simp add: emit_def)
  have fw: "fs w1 = fs w" by (simp add: w1)
  from assms(3) show ?thesis
  proof
    assume "dl final_url = Http_error code"
    then show ?thesis
      using assms(1) fw
      by (simp add: download_and_extract_zip_def Let_def fetch_zip_unfold [OF r])
  next
    assume "dl final_url = Transfer_error partial"
    then show ?thesis
      using assms(1) fw
      by (auto simp: download_and_extract_zip_def Let_def fetch_zip_unfold [OF r]
               split: option.splits sum.splits)
  qed
qed

lemma find_zip_url_demo:
  "find_zip_url demo_srv ''v3.7.0'' w
     = (Inr (Some (JStr asset_url)), emit (Request (release_request ''v3.7.0'')) w)"
proof -
  have "scan_assets demo_assets ''fontmake-3.7.0-cp311-cp311-macosx_11_0_universal2.zip''
          = Inr (JStr asset_url)"
    by (simp add: demo_assets_def)
  moreover have "asset_url \<noteq> []" by (simp add: asset_url_def)
  ultimately show ?thesis
    by (simp add: find_zip_url_unfold demo_srv_release demo_release_def zip_name_demo)
qed

lemma demo_paths:
  "version_of ''v3.7.0'' = ''3.7.0''"
  "zip_path_of [''Scripts''] ''v3.7.0''
     = [''Scripts'', ''fontmake-3.7.0-cp311-cp311-macosx_11_0_universal2.zip'']"
  "top_dir_of [''Scripts''] ''v3.7.0'' = ''fontmake-3.7.0-cp311-cp311-macosx_11_0_universal2''"
  "extracted_dir_of [''Scripts''] ''v3.7.0''
     = [''Scripts'', ''fontmake-3.7.0-cp311-cp311-macosx_11_0_universal2'']"
  "fontmake_exe_of [''Scripts''] ''v3.7.0''
     = [''Scripts'', ''fontmake-3.7.0-cp311-cp311-macosx_11_0_universal2'', ''fontmake'']"
  "pyz_path_of [''Scripts''] ''v3.7.0'' = [''Scripts'', ''fontmake-3.7.0.pyz'']"
proof -
  show v: "version_of ''v3.7.0'' = ''3.7.0''"
    by (simp add: version_of_def)
  show zp: "zip_path_of [''Scripts''] ''v3.7.0''
     = [''Scripts'', ''fontmake-3.7.0-cp311-cp311-macosx_11_0_universal2.zip'']"
    by (simp add: zip_path_of_def v FONTMAKE_ZIP_def joinpath_single)
  have "''fontmake-3.7.0-cp311-cp311-macosx_11_0_universal2.zip''
          = ''fontmake-3.7.0-cp311-cp311-macosx_11_0_universal2'' @ ''.zip''"
    by simp
  then show td: "top_dir_of [''Scripts''] ''v3.7.0'' = ''fontmake-3.7.0-cp311-cp311-macosx_11_0_universal2''"
    unfolding top_dir_of_def zp
    using stem_zip [of "''fontmake-3.7.0-cp311-cp311-macosx_11_0_universal2''" "[''Scripts'']"]
    by simp
  show ed: "extracted_dir_of [''Scripts''] ''v3.7.0''
     = [''Scripts'', ''fontmake-3.7.0-cp311-cp311-macosx_11_0_universal2'']"
    by (simp add: extracted_dir_of_def td joinpath_single)
  show "fontmake_exe_of [''Scripts''] ''v3.7.0''
     = [''Scripts'', ''fontmake-3.7.0-cp311-cp311-macosx_11_0_universal2'', ''fontmake'']"
    by (simp add: fontmake_exe_of_def ed joinpath_single)
  show "pyz_path_of [''Scripts''] ''v3.7.0'' = [''Scripts'', ''fontmake-3.7.0.pyz'']"
    by (simp add: pyz_path_of_def v pyz_name_def joinpath_single)
qed

lemma demo_zip_path:
  "joinpath [''Scripts''] (FONTMAKE_ZIP (version_of ''v3.7.0''))
     = [''Scripts'', ''fontmake-3.7.0-cp311-cp311-macosx_11_0_universal2.zip'']"
  using demo_paths(2) by (simp add: zip_path_of_def)

text \<open>The example server and the first stages of a run against it.\<close>

lemma demo_resolved:
  assumes "1 < stack_room w"
  shows "get_redirected_url demo_srv (stack_room w) asset_url
           (trace (emit (Request (release_request ''v3.7.0'')) w) @ [Print (Downloading (JStr asset_url))])
         = (Inr signed_url,
            trace w @ [Request (release_request ''v3.7.0''), Print (Downloading (JStr asset_url)),
              Request \<lparr>meth = HEAD, host = ''github.com'',
                target = ''/googlefonts/fontmake/releases/download/v3.7.0/fontmake-3.7.0-cp311-cp311-macosx_11_0_universal2.zip''\<rparr>,
              Request \<lparr>meth = HEAD, host = ''objects.example.com'', target = ''/dl/fontmake.zip''\<rparr>])"
  using get_redirected_url_demo [OF assms] by simp

theorem failed_transfer_stops_install_witness:
  "(\<exists>w'. download_and_extract_zip demo_srv failing_dl ''v3.7.0'' [''Scripts''] demo_world
            = (Inr (), w')
         \<and> fs w' = demo_fs \<and> last (trace w') = Print (Failed_download signed_url 503))
   \<and> (\<exists>e w'. download_and_extract_zip demo_srv broken_dl ''v3.7.0'' [''Scripts''] demo_world
            = (Inl e, w')
         \<and> fs w' = demo_fs([''Scripts'', ''fontmake-3.7.0-cp311-cp311-macosx_11_0_universal2.zip'']
                             \<mapsto> File (Bytes ''PK'')))"
proof -
  have room: "1 < stack_room demo_world" by (simp add: demo_world_def)
  have found: "find_zip_url demo_srv ''v3.7.0'' demo_world
      = (Inr (Some (JStr asset_url)), emit (Request (release_request ''v3.7.0'')) demo_world)"
    by (rule find_zip_url_demo)
  note resolved = demo_resolved [OF room]
  have wr: "write_file demo_fs [''Scripts'', ''fontmake-3.7.0-cp311-cp311-macosx_11_0_universal2.zip''] (Bytes ''PK'')
      = Inr (demo_fs([''Scripts'', ''fontmake-3.7.0-cp311-cp311-macosx_11_0_universal2.zip'']
                             \<mapsto> File (Bytes ''PK'')))"
    by (simp add: write_file_def demo_fs_def dir_exists_def)
  have 1: "\<exists>w'. download_and_extract_zip demo_srv failing_dl ''v3.7.0'' [''Scripts''] demo_world
            = (Inr (), w')
         \<and> fs w' = demo_fs \<and> last (trace w') = Print (Failed_download signed_url 503)"
    using failed_transfer_stops_install [OF found resolved, of failing_dl 503 None "[''Scripts'']"]
    by (auto simp: failing_dl_def demo_world_def)
  have 2: "\<exists>e w'. download_and_extract_zip demo_srv broken_dl ''v3.7.0'' [''Scripts''] demo_world
            = (Inl e, w')
         \<and> fs w' = demo_fs([''Scripts'', ''fontmake-3.7.0-cp311-cp311-macosx_11_0_universal2.zip'']
                             \<mapsto> File (Bytes ''PK''))"
    using failed_transfer_stops_install [OF found resolved, of broken_dl 0 "Some (Bytes ''PK'')" "[''Scripts'']"]
      wr
    by (auto simp: broken_dl_def demo_world_def demo_zip_path)
  from 1 2 show ?thesis by blast
qed


lemmas fs_eval = extractall_def extract_member_def member_parts_def member_is_dir_def
  write_file_def mkdir_def is_dir_def dir_exists_def is_file_def open_zip_def rename_def
  rmtree_def stuck_def unlink_def Let_def

lemma demo_install_eval:
  assumes "dl signed_url = Retrieved (Archive ms)"
    and "1 < stack_room w"
    and "fs w [''Scripts''] = Some Dir"
    and "fs w [''Scripts'', ''fontmake-3.7.0-cp311-cp311-macosx_11_0_universal2.zip''] \<noteq> Some Dir"
  shows "download_and_extract_zip demo_srv dl ''v3.7.0'' [''Scripts''] w
     = unpack (version_of ''v3.7.0'') (zip_path_of [''Scripts''] ''v3.7.0'') [''Scripts'']
         (w\<lparr>fs := (fs w)([''Scripts'', ''fontmake-3.7.0-cp311-cp311-macosx_11_0_universal2.zip'']
                               \<mapsto> File (Archive ms)),
            trace := trace w @ [Request (release_request ''v3.7.0''), Print (Downloading (JStr asset_url)),
                   Request \<lparr>meth = HEAD, host = ''github.com'',
                     target = ''/googlefonts/fontmake/releases/download/v3.7.0/fontmake-3.7.0-cp311-cp311-macosx_11_0_universal2.zip''\<rparr>,
                   Request \<lparr>meth = HEAD, host = ''objects.example.com'', target = ''/dl/fontmake.zip''\<rparr>,
                   Retrieve signed_url [''Scripts'', ''fontmake-3.7.0-cp311-cp311-macosx_11_0_universal2.zip'']]\<rparr>)"
proof -
  have wr: "write_file (fs w) [''Scripts'', ''fontmake-3.7.0-cp311-cp311-macosx_11_0_universal2.zip''] (Archive ms)
      = Inr ((fs w)([''Scripts'', ''fontmake-3.7.0-cp311-cp311-macosx_11_0_universal2.zip'']
                       \<mapsto> File (Archive ms)))"
    using assms(3,4) by (simp add: write_file_def dir_exists_def)
  show ?thesis
    unfolding download_and_extract_zip_retrieved
      [where dl = dl and srv = demo_srv, OF find_zip_url_demo demo_resolved [OF assms(2)] assms(1)]
      demo_paths(2)
    by (simp add: wr)
qed

lemma extract_names_untouched:
  assumes "extract_names ms dir ns f = (Inr (), f')"
    and "\<forall>n \<in> set ns. \<not> prefix p (dir @ member_parts n)"
  shows "f' p = f p"
  using extract_names_local [OF assms(1), of p] assms(2) by blast

lemma decoy_run_eval:
  "\<exists>w'. decoy_run = (Inr (), w')
     \<and> last (trace w') = Print (No_fontmake [''Scripts'', ''fontmake-3.7.0-cp311-cp311-macosx_11_0_universal2''])
     \<and> fs w' [''Scripts'', ''fontmake-3.7.0-cp311-cp311-macosx_11_0_universal2''] = Some Dir
     \<and> fs w' [''Scripts'', ''fontmake-3.7.0-cp311-cp311-macosx_11_0_universal2'', ''fontmake''] = None
     \<and> fs w' [''Scripts'', ''fontmake-3.7.0.pyz''] = Some (File (Bytes ''not the app''))"
proof -
  have dl: "decoy_dl signed_url = Retrieved (Archive decoy_archive)"
    by (simp add: decoy_dl_def)
  have w: "1 < stack_room demo_world" "fs demo_world [''Scripts''] = Some Dir"
    "fs demo_world [''Scripts'', ''fontmake-3.7.0-cp311-cp311-macosx_11_0_universal2.zip''] \<noteq> Some Dir"
    by (simp_all add: demo_world_def demo_fs_def)
  show ?thesis
    unfolding decoy_run_def demo_install_eval [where dl = decoy_dl, OF dl w]
    unfolding unpack_unfold
    by (simp add: demo_paths decoy_archive_def demo_world_def demo_fs_def fs_eval)
qed

text \<open>
  Claim C7 says that without a file \<open>fontmake\<close> in the extracted directory the final
  artifact is not created. The installer does not create it, but the extraction may:
  with an archive that has the expected directory, no \<open>fontmake\<close> in it, and beside the
  directory a member named like the artifact, the run ends with the message that the
  archive does not contain \<open>fontmake\<close>, and the path of the artifact, empty before,
  holds a file.
\<close>

theorem install_without_fontmake_may_leave_artifact:
  "fst decoy_run = Inr ()
   \<and> last (trace (snd decoy_run))
       = Print (No_fontmake [''Scripts'', ''fontmake-3.7.0-cp311-cp311-macosx_11_0_universal2''])
   \<and> fs (snd decoy_run) [''Scripts'', ''fontmake-3.7.0-cp311-cp311-macosx_11_0_universal2''] = Some Dir
   \<and> fs (snd decoy_run) [''Scripts'', ''fontmake-3.7.0-cp311-cp311-macosx_11_0_universal2'', ''fontmake'']
       = None
   \<and> pyz_path_of [''Scripts''] ''v3.7.0'' = [''Scripts'', ''fontmake-3.7.0.pyz'']
   \<and> fs demo_world [''Scripts'', ''fontmake-3.7.0.pyz''] = None
   \<and> fs (snd decoy_run) [''Scripts'', ''fontmake-3.7.0.pyz''] = Some (File (Bytes ''not the app''))"
proof -
  from decoy_run_eval obtain w' where r: "decoy_run = (Inr (), w')"
    and e: "last (trace w') = Print (No_fontmake [''Scripts'', ''fontmake-3.7.0-cp311-cp311-macosx_11_0_universal2''])"
    "fs w' [''Scripts'', ''fontmake-3.7.0-cp311-cp311-macosx_11_0_universal2''] = Some Dir"
    "fs w' [''Scripts'', ''fontmake-3.7.0-cp311-cp311-macosx_11_0_universal2'', ''fontmake''] = None"
    "fs w' [''Scripts'', ''fontmake-3.7.0.pyz''] = Some (File (Bytes ''not the app''))"
    by blast
  show ?thesis
    unfolding r using e by (simp add: demo_world_def demo_fs_def demo_paths)
qed

text \<open>
  Claim C7 as amended. When the archive was downloaded and extracted, the expected
  directory exists and there is no file \<open>fontmake\<close> in it, the function prints that the
  archive does not contain \<open>fontmake\<close> and returns, for every tag. Nothing is renamed
  or deleted: the file system is left as the extraction made it, the archive file is
  still there and the extracted directory is still there. The path of the final artifact
  holds what it held before the run, unless a member of the archive is extracted to that
  path or below it; and the archive file is the one downloaded, unless a member is
  extracted over it.
\<close>

theorem missing_fontmake_stops_install:
  assumes "find_zip_url srv tag_name w = (Inr (Some (JStr u)), w1)"
    and "get_redirected_url srv (stack_room w) u (trace w1 @ [Print (Downloading (JStr u))])
           = (Inr final_url, tr)"
    and "dl final_url = Retrieved (Archive ms)"
    and "write_file (fs w) (zip_path_of output_dir tag_name) (Archive ms) = Inr f1"
    and "extractall ms output_dir f1 = (Inr (), f2)"
    and "is_dir f2 (extracted_dir_of output_dir tag_name)"
    and "\<not> is_file f2 (fontmake_exe_of output_dir tag_name)"
  shows "download_and_extract_zip srv dl tag_name output_dir w
           = (Inr (), w\<lparr>fs := f2,
                trace := tr @ [Retrieve final_url (zip_path_of output_dir tag_name),
                               Print (No_fontmake (extracted_dir_of output_dir tag_name))]\<rparr>)
       \<and> is_file f2 (zip_path_of output_dir tag_name)
       \<and> f2 (extracted_dir_of output_dir tag_name) = Some Dir
       \<and> ((\<forall>n \<in> fst ` set ms. \<not> prefix (pyz_path_of output_dir tag_name) (output_dir @ member_parts n))
            \<longrightarrow> f2 (pyz_path_of output_dir tag_name) = fs w (pyz_path_of output_dir tag_name))
       \<and> ((\<forall>n \<in> fst ` set ms. \<not> prefix (zip_path_of output_dir tag_name) (output_dir @ member_parts n))
            \<longrightarrow> f2 (zip_path_of output_dir tag_name) = Some (File (Archive ms)))"
proof -
  let ?zp = "zip_path_of output_dir tag_name"
  let ?ed = "extracted_dir_of output_dir tag_name"
  let ?pyz = "pyz_path_of output_dir tag_name"
  have f1: "f1 = (fs w)(?zp \<mapsto> File (Archive ms))"
    using assms(4) by (auto simp: write_file_def split: if_splits)
  then have oz: "open_zip f1 ?zp = Inr ms"
    by (simp add: open_zip_def)
  have run: "download_and_extract_zip srv dl tag_name output_dir w
           = (Inr (), w\<lparr>fs := f2, trace := tr @ [Retrieve final_url ?zp, Print (No_fontmake ?ed)]\<rparr>)"
    unfolding download_and_extract_zip_retrieved [where dl = dl and srv = srv, OF assms(1,2,3)]
      unpack_unfold
    using assms(4,5,6,7) oz by simp
  have names: "extract_names ms output_dir (map fst ms) f1 = (Inr (), f2)"
    using assms(5) by (simp add: extractall_def)
  have "is_file f1 ?zp"
    by (simp add: f1 is_file_def)
  from extract_names_keeps_file [OF names this] have zip_left: "is_file f2 ?zp" .
  have dir_left: "f2 ?ed = Some Dir"
    using assms(6) by (simp add: is_dir_def installer_paths_facts(1))
  have pyz: "f2 ?pyz = fs w ?pyz"
    if "\<forall>n \<in> fst ` set ms. \<not> prefix ?pyz (output_dir @ member_parts n)"
  proof -
    from that have "f2 ?pyz = f1 ?pyz"
      by (intro extract_names_untouched [OF names]) simp
    then show ?thesis
      by (simp add: f1 installer_paths_facts(3))
  qed
  have zip: "f2 ?zp = Some (File (Archive ms))"
    if "\<forall>n \<in> fst ` set ms. \<not> prefix ?zp (output_dir @ member_parts n)"
  proof -
    from that have "f2 ?zp = f1 ?zp"
      by (intro extract_names_untouched [OF names]) simp
    then show ?thesis
      by (simp add: f1)
  qed
  from run zip_left dir_left pyz zip show ?thesis by blast
qed

lemma extract_readme_archive:
  "extractall readme_archive [''Scripts'']
     (demo_fs([''Scripts'', ''fontmake-3.7.0-cp311-cp311-macosx_11_0_universal2.zip'']
                \<mapsto> File (Archive readme_archive)))
   = (Inr (),
      demo_fs([''Scripts'', ''fontmake-3.7.0-cp311-cp311-macosx_11_0_universal2.zip'']
                \<mapsto> File (Archive readme_archive),
              [''Scripts'', ''fontmake-3.7.0-cp311-cp311-macosx_11_0_universal2''] \<mapsto> Dir,
              [''Scripts'', ''fontmake-3.7.0-cp311-cp311-macosx_11_0_universal2'', ''README.txt'']
                \<mapsto> File (Bytes ''read me'')))"
  by (simp add: readme_archive_def demo_fs_def fs_eval)

theorem missing_fontmake_stops_install_witness:
  "\<exists>w'. download_and_extract_zip demo_srv readme_dl ''v3.7.0'' [''Scripts''] demo_world
           = (Inr (), w')
        \<and> last (trace w') = Print (No_fontmake [''Scripts'', ''fontmake-3.7.0-cp311-cp311-macosx_11_0_universal2''])
        \<and> fs w' [''Scripts'', ''fontmake-3.7.0-cp311-cp311-macosx_11_0_universal2.zip'']
            = Some (File (Archive readme_archive))
        \<and> fs w' [''Scripts'', ''fontmake-3.7.0-cp311-cp311-macosx_11_0_universal2''] = Some Dir
        \<and> fs w' [''Scripts'', ''fontmake-3.7.0.pyz''] = None"
proof -
  let ?zp = "[''Scripts'', ''fontmake-3.7.0-cp311-cp311-macosx_11_0_universal2.zip'']"
  let ?f1 = "demo_fs(?zp \<mapsto> File (Archive readme_archive))"
  let ?f2 = "demo_fs(?zp \<mapsto> File (Archive readme_archive),
              [''Scripts'', ''fontmake-3.7.0-cp311-cp311-macosx_11_0_universal2''] \<mapsto> Dir,
              [''Scripts'', ''fontmake-3.7.0-cp311-cp311-macosx_11_0_universal2'', ''README.txt'']
                \<mapsto> File (Bytes ''read me''))"
  have room: "1 < stack_room demo_world" by (simp add: demo_world_def)
  have found: "find_zip_url demo_srv ''v3.7.0'' demo_world
      = (Inr (Some (JStr asset_url)), emit (Request (release_request ''v3.7.0'')) demo_world)"
    by (rule find_zip_url_demo)
  note resolved = demo_resolved [OF room]
  have dl: "readme_dl signed_url = Retrieved (Archive readme_archive)"
    by (simp add: readme_dl_def)
  have wr: "write_file (fs demo_world) (zip_path_of [''Scripts''] ''v3.7.0'')
             (Archive readme_archive) = Inr ?f1"
    by (simp add: demo_paths write_file_def demo_world_def demo_fs_def dir_exists_def)
  have ex: "extractall readme_archive [''Scripts''] ?f1 = (Inr (), ?f2)"
    by (rule extract_readme_archive)
  have d: "is_dir ?f2 (extracted_dir_of [''Scripts''] ''v3.7.0'')"
    by (simp add: demo_paths is_dir_def)
  have nf: "\<not> is_file ?f2 (fontmake_exe_of [''Scripts''] ''v3.7.0'')"
    by (simp add: demo_paths is_file_def demo_fs_def)
  have no_pyz: "\<forall>n \<in> fst ` set readme_archive.
       \<not> prefix (pyz_path_of [''Scripts''] ''v3.7.0'') ([''Scripts''] @ member_parts n)"
    by (simp add: demo_paths readme_archive_def member_parts_def)
  have no_zip: "\<forall>n \<in> fst ` set readme_archive.
       \<not> prefix (zip_path_of [''Scripts''] ''v3.7.0'') ([''Scripts''] @ member_parts n)"
    by (simp add: demo_paths readme_archive_def member_parts_def)
  from missing_fontmake_stops_install
         [where dl = readme_dl and output_dir = "[''Scripts'']" and ?f1.0 = ?f1 and ?f2.0 = ?f2,
          OF found resolved dl wr ex d nf] no_pyz no_zip
  show ?thesis
    by (simp add: demo_paths demo_world_def demo_fs_def)
qed


subsection \<open>A successful install\<close>

lemma dir_exists_prefix: "dir_exists f d \<Longrightarrow> prefix d' d \<Longrightarrow> dir_exists f d'"
  by (auto simp: dir_exists_def in_set_prefixes)

lemma unpack_success:
  assumes run: "unpack (version_of tag_name) (zip_path_of output_dir tag_name) output_dir w = (Inr (), w')"
    and fin: "last (trace w') = Print (Extracted_to output_dir)"
  shows "\<exists>ms f2 c f3. open_zip (fs w) (zip_path_of output_dir tag_name) = Inr ms
       \<and> extractall ms output_dir (fs w) = (Inr (), f2)
       \<and> f2 (extracted_dir_of output_dir tag_name) = Some Dir
       \<and> f2 (fontmake_exe_of output_dir tag_name) = Some (File c)
       \<and> rename f2 (locked w) (fontmake_exe_of output_dir tag_name) (pyz_path_of output_dir tag_name)
           = Inr f3
       \<and> unlink (rmtree f3 (locked w) (extracted_dir_of output_dir tag_name)) (locked w)
           (zip_path_of output_dir tag_name) = Inr (fs w')"
proof -
  let ?zp = "zip_path_of output_dir tag_name"
  let ?ed = "extracted_dir_of output_dir tag_name"
  let ?exe = "fontmake_exe_of output_dir tag_name"
  let ?pyz = "pyz_path_of output_dir tag_name"
  note run' = run [unfolded unpack_unfold]
  from run' obtain ms where ms: "open_zip (fs w) ?zp = Inr ms"
    by (auto split: sum.splits)
  from run' ms obtain f2 where f2: "extractall ms output_dir (fs w) = (Inr (), f2)"
    by (auto split: sum.splits prod.splits)
  from run' ms f2 fin have d: "is_dir f2 ?ed" and e: "is_file f2 ?exe"
    by (auto split: if_splits)
  from e obtain c where c: "f2 ?exe = Some (File c)"
    by (auto simp: is_file_def split: option.splits node.splits)
  from d have dir: "f2 ?ed = Some Dir"
    by (simp add: is_dir_def installer_paths_facts(1))
  from run' ms f2 d e obtain f3 where f3: "rename f2 (locked w) ?exe ?pyz = Inr f3"
    by (auto split: sum.splits)
  from run' ms f2 d e f3 have "unlink (rmtree f3 (locked w) ?ed) (locked w) ?zp = Inr (fs w')"
    by (auto split: sum.splits)
  with ms f2 dir c f3 show ?thesis by blast
qed

text \<open>
  Every run that reaches the end of the function has found the asset, resolved its URL
  and downloaded an archive from there.
\<close>

lemma successful_run_stages:
  assumes run: "download_and_extract_zip srv dl tag_name output_dir w = (Inr (), w')"
    and fin: "last (trace w') = Print (Extracted_to output_dir)"
  shows "\<exists>u w1 final_url tr ms.
           find_zip_url srv tag_name w = (Inr (Some (JStr u)), w1)
         \<and> get_redirected_url srv (stack_room w) u (trace w1 @ [Print (Downloading (JStr u))])
             = (Inr final_url, tr)
         \<and> dl final_url = Retrieved (Archive ms)"
proof -
  let ?zp = "zip_path_of output_dir tag_name"
  obtain r0 w1 where s1: "find_zip_url srv tag_name w = (r0, w1)"
    by (cases "find_zip_url srv tag_name w")
  have "\<exists>zip_url. r0 = Inr (Some zip_url)"
  proof (cases r0)
    case (Inl e)
    with run s1 show ?thesis
      by (simp add: download_and_extract_zip_def Let_def)
  next
    case (Inr o1)
    show ?thesis
    proof (cases o1)
      case None
      with run s1 Inr have "w' = w1"
        by (simp add: download_and_extract_zip_def Let_def)
      with find_zip_url_None [of srv tag_name w w1 output_dir] s1 Inr None fin show ?thesis
        by auto
    next
      case (Some z)
      with Inr show ?thesis by simp
    qed
  qed
  then obtain zip_url where s1': "find_zip_url srv tag_name w = (Inr (Some zip_url), w1)"
    using s1 by auto
  from find_zip_url_Some [OF s1'] have w1: "w1 = emit (Request (release_request tag_name)) w" .
  obtain r2 w2 where s2: "fetch_zip srv dl zip_url ?zp w1 = (r2, w2)"
    by (cases "fetch_zip srv dl zip_url ?zp w1")
  have r2: "r2 = Inr True"
  proof (cases r2)
    case (Inl e)
    with run s1' s2 show ?thesis
      by (simp add: download_and_extract_zip_def Let_def zip_path_of_def)
  next
    case (Inr b)
    show ?thesis
    proof (cases b)
      case True
      with Inr show ?thesis by simp
    next
      case False
      with run s1' s2 Inr have w': "w' = w2"
        by (simp add: download_and_extract_zip_def Let_def zip_path_of_def)
      from s2 Inr False have "\<exists>url code. last (trace w2) = Print (Failed_download url code)"
        by (auto simp: fetch_zip_def urlretrieve_def Let_def emit_def
                 split: json.splits option.splits sum.splits retrieval.splits py_error.splits
                        prod.splits)
      with w' fin show ?thesis by auto
    qed
  qed
  with run s1' s2 have s3: "unpack (version_of tag_name) ?zp output_dir w2 = (Inr (), w')"
    by (simp add: download_and_extract_zip_def Let_def zip_path_of_def)
  from s2 r2 obtain u where u: "zip_url = JStr u"
    by (cases zip_url) (auto simp: fetch_zip_def Let_def split: if_splits)
  obtain r tr where g: "get_redirected_url srv (stack_room w) u (trace w1 @ [Print (Downloading (JStr u))])
                          = (r, tr)"
    by (cases "get_redirected_url srv (stack_room w) u (trace w1 @ [Print (Downloading (JStr u))])")
  then have g1: "get_redirected_url srv (stack_room w1) u (trace w1 @ [Print (Downloading (JStr u))])
                          = (r, tr)"
    by (simp add: w1 emit_def)
  from s2 r2 u g1 obtain final_url where f: "r = Inr final_url"
    by (cases r) (auto simp: fetch_zip_def Let_def emit_def)
  note fz = fetch_zip_unfold [where srv = srv and dl = dl and zp = ?zp, OF g1 [unfolded f]]
  from s2 r2 u fz obtain c where c: "dl final_url = Retrieved c"
    and wr: "write_file (fs w1) ?zp c = Inr (fs w2)"
    by (auto split: retrieval.splits option.splits sum.splits)
  from unpack_success [OF s3 fin] obtain ms where "open_zip (fs w2) ?zp = Inr ms"
    by blast
  with write_file_Inr [OF wr] have "c = Archive ms"
    by (auto simp: open_zip_def split: content.splits)
  with s1' u g f c show ?thesis by blast
qed

lemma stray_run_eval:
  "\<exists>w'. stray_run = (Inr (), w')
     \<and> last (trace w') = Print (Extracted_to [''Scripts''])
     \<and> fs w' [''Scripts'', ''LICENSE''] = Some (File (Bytes ''Apache-2.0''))
     \<and> fs w' [''Scripts'', ''fontmake-3.7.0.pyz''] = Some (File (Bytes ''PK-fontmake-app''))
     \<and> fs w' [''Scripts'', ''fontmake-3.7.0-cp311-cp311-macosx_11_0_universal2.zip''] = None
     \<and> fs w' [''Scripts'', ''fontmake-3.7.0-cp311-cp311-macosx_11_0_universal2''] = None"
proof -
  have dl: "stray_dl signed_url = Retrieved (Archive stray_archive)"
    by (simp add: stray_dl_def)
  have w: "1 < stack_room demo_world" "fs demo_world [''Scripts''] = Some Dir"
    "fs demo_world [''Scripts'', ''fontmake-3.7.0-cp311-cp311-macosx_11_0_universal2.zip''] \<noteq> Some Dir"
    by (simp_all add: demo_world_def demo_fs_def)
  show ?thesis
    unfolding stray_run_def demo_install_eval [where dl = stray_dl, OF dl w]
    unfolding unpack_unfold
    by (simp add: demo_paths stray_archive_def demo_world_def demo_fs_def fs_eval)
qed

lemma guarded_run_eval:
  "\<exists>w'. guarded_run = (Inr (), w')
     \<and> last (trace w') = Print (Extracted_to [''Scripts''])
     \<and> fs w' [''Scripts'', ''fontmake-3.7.0.pyz''] = Some (File (Bytes ''PK-fontmake-app''))
     \<and> fs w' [''Scripts'', ''fontmake-3.7.0-cp311-cp311-macosx_11_0_universal2.zip''] = None
     \<and> fs w' [''Scripts'', ''fontmake-3.7.0-cp311-cp311-macosx_11_0_universal2''] = Some Dir
     \<and> fs w' [''Scripts'', ''fontmake-3.7.0-cp311-cp311-macosx_11_0_universal2'', ''notes.txt'']
         = Some (File (Bytes ''keep''))"
proof -
  have dl: "demo_dl signed_url = Retrieved (Archive demo_archive)"
    by (simp add: demo_dl_def)
  have w: "1 < stack_room guarded_world" "fs guarded_world [''Scripts''] = Some Dir"
    "fs guarded_world [''Scripts'', ''fontmake-3.7.0-cp311-cp311-macosx_11_0_universal2.zip''] \<noteq> Some Dir"
    by (simp_all add: guarded_world_def demo_fs_def)
  show ?thesis
    unfolding guarded_run_def demo_install_eval [where dl = demo_dl, OF dl w]
    unfolding unpack_unfold
    by (simp add: demo_paths demo_archive_def guarded_world_def demo_fs_def fs_eval)
qed

text \<open>
  Claim C1 says that after every successful run the output directory has exactly one new
  file and the extracted directory is gone. \<open>extractall\<close> writes every member of the
  archive and the cleanup removes only the expected directory and the archive file: with
  an archive that has a member beside that directory, the run ends successfully and
  leaves two new files, the artifact and that member. And \<open>rmtree\<close> is called with
  \<open>ignore_errors=True\<close>: where the directory holds a file that cannot be removed, the
  run ends successfully all the same and the directory is still there.
\<close>

theorem install_leaves_more_than_artifact:
  "fst stray_run = Inr ()
   \<and> last (trace (snd stray_run)) = Print (Extracted_to [''Scripts''])
   \<and> fs demo_world [''Scripts'', ''LICENSE''] = None
   \<and> fs (snd stray_run) [''Scripts'', ''LICENSE''] = Some (File (Bytes ''Apache-2.0''))
   \<and> fs demo_world [''Scripts'', ''fontmake-3.7.0.pyz''] = None
   \<and> fs (snd stray_run) [''Scripts'', ''fontmake-3.7.0.pyz'']
       = Some (File (Bytes ''PK-fontmake-app''))
   \<and> fst guarded_run = Inr ()
   \<and> last (trace (snd guarded_run)) = Print (Extracted_to [''Scripts''])
   \<and> fs (snd guarded_run) [''Scripts'', ''fontmake-3.7.0.pyz'']
       = Some (File (Bytes ''PK-fontmake-app''))
   \<and> extracted_dir_of [''Scripts''] ''v3.7.0''
       = [''Scripts'', ''fontmake-3.7.0-cp311-cp311-macosx_11_0_universal2'']
   \<and> fs (snd guarded_run) [''Scripts'', ''fontmake-3.7.0-cp311-cp311-macosx_11_0_universal2'']
       = Some Dir"
proof -
  from stray_run_eval obtain w' where r: "stray_run = (Inr (), w')"
    and e: "last (trace w') = Print (Extracted_to [''Scripts''])"
    "fs w' [''Scripts'', ''LICENSE''] = Some (File (Bytes ''Apache-2.0''))"
    "fs w' [''Scripts'', ''fontmake-3.7.0.pyz''] = Some (File (Bytes ''PK-fontmake-app''))"
    by blast
  from guarded_run_eval obtain w2 where r2: "guarded_run = (Inr (), w2)"
    and e2: "last (trace w2) = Print (Extracted_to [''Scripts''])"
    "fs w2 [''Scripts'', ''fontmake-3.7.0.pyz''] = Some (File (Bytes ''PK-fontmake-app''))"
    "fs w2 [''Scripts'', ''fontmake-3.7.0-cp311-cp311-macosx_11_0_universal2''] = Some Dir"
    by blast
  show ?thesis
    unfolding r r2 using e e2 by (simp add: demo_world_def demo_fs_def demo_paths)
qed

text \<open>
  Claim C1 as amended. Take a run that reaches the end of the function (it prints
  \<open>Extracted to\<close> and returns), for any tag, in which every member of the archive
  downloaded lies in the directory named after the archive file, and nothing at or below
  that directory on the disk is an entry that cannot be removed. Afterwards the artifact
  \<open>fontmake-{version}.pyz\<close> is a file at its path under the output directory, the
  archive file and everything at or below the extracted directory are gone, and every
  other path holds what it held before the run. When the archive has a file member
  \<open>fontmake\<close> in that directory, the artifact holds the data of such a member.
\<close>

theorem successful_install_leaves_only_pyz:
  assumes found: "find_zip_url srv tag_name w = (Inr (Some (JStr u)), w1)"
    and resolved: "get_redirected_url srv (stack_room w) u (trace w1 @ [Print (Downloading (JStr u))])
                     = (Inr final_url, tr)"
    and dl: "dl final_url = Retrieved (Archive ms)"
    and under: "members_under (top_dir_of output_dir tag_name) ms"
    and free: "\<forall>q \<in> set (locked w). \<not> prefix (extracted_dir_of output_dir tag_name) q"
    and run: "download_and_extract_zip srv dl tag_name output_dir w = (Inr (), w')"
    and fin: "last (trace w') = Print (Extracted_to output_dir)"
  shows "\<exists>c. fs w' = (\<lambda>p. if p = pyz_path_of output_dir tag_name then Some (File c)
                          else if p = zip_path_of output_dir tag_name
                                  \<or> prefix (extracted_dir_of output_dir tag_name) p
                          then None
                          else fs w p)
       \<and> (has_fontmake (top_dir_of output_dir tag_name) ms \<longrightarrow>
            (\<exists>n \<in> fst ` set ms. \<not> member_is_dir n
                \<and> member_parts n = [top_dir_of output_dir tag_name, ''fontmake'']
                \<and> map_of (rev ms) n = Some c))"
proof -
  let ?zp = "zip_path_of output_dir tag_name"
  let ?ed = "extracted_dir_of output_dir tag_name"
  let ?exe = "fontmake_exe_of output_dir tag_name"
  let ?pyz = "pyz_path_of output_dir tag_name"
  let ?top = "top_dir_of output_dir tag_name"
  let ?tr = "tr @ [Retrieve final_url ?zp]"
  note paths = installer_paths_facts [of output_dir tag_name]
  note stage = download_and_extract_zip_retrieved [where dl = dl and srv = srv, OF found resolved dl]
  from run obtain f1 where wr: "write_file (fs w) ?zp (Archive ms) = Inr f1"
    and s3: "unpack (version_of tag_name) ?zp output_dir (w\<lparr>fs := f1, trace := ?tr\<rparr>) = (Inr (), w')"
    unfolding stage by (auto split: sum.splits)
  from write_file_Inr [OF wr]
  have f1: "f1 = (fs w)(?zp \<mapsto> File (Archive ms))" and dz: "dir_exists (fs w) (butlast ?zp)"
    by simp_all
  from dir_exists_prefix [OF dz paths(8)] have dirs: "dir_exists (fs w) output_dir" .
  from unpack_success [OF s3 fin] obtain ms' f2 c f3
    where oz: "open_zip f1 ?zp = Inr ms'"
      and ex: "extractall ms' output_dir f1 = (Inr (), f2)"
      and dir: "f2 ?ed = Some Dir"
      and exe: "f2 ?exe = Some (File c)"
      and rn: "rename f2 (locked w) ?exe ?pyz = Inr f3"
      and ul: "unlink (rmtree f3 (locked w) ?ed) (locked w) ?zp = Inr (fs w')"
    by auto
  from oz have ms': "ms' = ms"
    by (simp add: f1 open_zip_def)
  from rn exe paths(4) have f3: "f3 = f2(?exe := None, ?pyz \<mapsto> File c)"
    by (auto simp: rename_def split: if_splits)
  have "f3 ?ed = Some Dir"
    using dir paths(5) by (auto simp: f3 paths(1,2))
  moreover have "\<not> stuck f3 (locked w) q" if "prefix ?ed q" for q
    using free that by (auto simp: stuck_def list_ex_iff dest: prefix_order.trans)
  ultimately have rm: "rmtree f3 (locked w) ?ed = (\<lambda>q. if prefix ?ed q then None else f3 q)"
    by (auto simp: rmtree_def fun_eq_iff)
  from ul have gone: "fs w' = (rmtree f3 (locked w) ?ed)(?zp := None)"
    and there: "rmtree f3 (locked w) ?ed ?zp \<noteq> None"
    by (auto simp: unlink_def split: option.splits node.splits if_splits)
  from there have nz: "\<not> prefix ?ed ?zp"
    by (auto simp: rm split: if_splits)
  with paths(7) have np: "\<not> prefix ?ed ?pyz" by blast
  have names: "extract_names ms output_dir (map fst ms) f1 = (Inr (), f2)"
    using ex by (simp add: extractall_def ms')
  have dirs1: "dir_exists f1 output_dir"
    using dirs paths(9) by (auto simp: dir_exists_def f1 in_set_prefixes)
  have outside: "f2 p = f1 p" if "\<not> prefix ?ed p" for p
    using extract_names_under [OF names _ dirs1, of ?top p] under that
    by (auto simp: members_under_def list_all_iff paths(1))
  have final: "fs w' q = (if q = ?zp \<or> prefix ?ed q then None else f3 q)" for q
    unfolding gone rm by simp
  have pe: "prefix ?ed ?exe"
    by (simp add: paths(1,2))
  have kept: "f3 q = fs w q" if "q \<noteq> ?pyz" "q \<noteq> ?zp" "\<not> prefix ?ed q" for q
    using that pe outside [of q] by (auto simp: f3 f1)
  have "f3 ?pyz = Some (File c)"
    by (simp add: f3)
  with paths(3) np kept
  have fs_eq: "fs w' = (\<lambda>p. if p = ?pyz then Some (File c)
                       else if p = ?zp \<or> prefix ?ed p then None
                       else fs w p)"
    by (auto simp: fun_eq_iff final)
  have prov: "\<exists>n \<in> fst ` set ms. \<not> member_is_dir n
                \<and> member_parts n = [?top, ''fontmake''] \<and> map_of (rev ms) n = Some c"
    if "has_fontmake ?top ms"
  proof -
    from that have "\<exists>n \<in> set (map fst ms). \<not> member_is_dir n
                      \<and> member_parts n = [?top, ''fontmake'']"
      by (auto simp: has_fontmake_def list_ex_iff)
    from extract_names_file_from_archive [OF names this] exe show ?thesis
      by (auto simp: paths(2))
  qed
  from fs_eq prov show ?thesis by blast
qed

lemma demo_run_eval:
  "\<exists>w'. download_and_extract_zip demo_srv demo_dl ''v3.7.0'' [''Scripts''] demo_world = (Inr (), w')
     \<and> last (trace w') = Print (Extracted_to [''Scripts''])"
proof -
  have dl: "demo_dl signed_url = Retrieved (Archive demo_archive)"
    by (simp add: demo_dl_def)
  have w: "1 < stack_room demo_world" "fs demo_world [''Scripts''] = Some Dir"
    "fs demo_world [''Scripts'', ''fontmake-3.7.0-cp311-cp311-macosx_11_0_universal2.zip''] \<noteq> Some Dir"
    by (simp_all add: demo_world_def demo_fs_def)
  show ?thesis
    unfolding demo_install_eval [where dl = demo_dl, OF dl w]
    unfolding unpack_unfold
    by (simp add: demo_paths demo_archive_def demo_world_def demo_fs_def fs_eval)
qed

theorem successful_install_leaves_only_pyz_witness:
  "\<exists>w'. download_and_extract_zip demo_srv demo_dl ''v3.7.0'' [''Scripts''] demo_world = (Inr (), w')
     \<and> fs w' = (\<lambda>p. if p = [''Scripts'', ''fontmake-3.7.0.pyz''] then Some (File (Bytes ''PK-fontmake-app''))
                     else if p = [''Scripts'', ''fontmake-3.7.0-cp311-cp311-macosx_11_0_universal2.zip'']
                             \<or> prefix [''Scripts'', ''fontmake-3.7.0-cp311-cp311-macosx_11_0_universal2''] p
                     then None
                     else demo_fs p)"
proof -
  from demo_run_eval obtain w' where
    run: "download_and_extract_zip demo_srv demo_dl ''v3.7.0'' [''Scripts''] demo_world = (Inr (), w')"
    and fin: "last (trace w') = Print (Extracted_to [''Scripts''])"
    by blast
  have room: "1 < stack_room demo_world" by (simp add: demo_world_def)
  have found: "find_zip_url demo_srv ''v3.7.0'' demo_world
      = (Inr (Some (JStr asset_url)), emit (Request (release_request ''v3.7.0'')) demo_world)"
    by (rule find_zip_url_demo)
  note resolved = demo_resolved [OF room]
  have dl: "demo_dl signed_url = Retrieved (Archive demo_archive)"
    by (simp add: demo_dl_def)
  have under: "members_under (top_dir_of [''Scripts''] ''v3.7.0'') demo_archive"
    by (simp add: demo_paths members_under_def demo_archive_def member_parts_def)
  have has: "has_fontmake (top_dir_of [''Scripts''] ''v3.7.0'') demo_archive"
    by (simp add: demo_paths has_fontmake_def demo_archive_def member_parts_def member_is_dir_def)
  have free: "\<forall>q \<in> set (locked demo_world). \<not> prefix (extracted_dir_of [''Scripts''] ''v3.7.0'') q"
    by (simp add: demo_world_def)
  from successful_install_leaves_only_pyz
         [where dl = demo_dl and srv = demo_srv, OF found resolved dl under free run fin]
  obtain c where
    fs: "fs w' = (\<lambda>p. if p = pyz_path_of [''Scripts''] ''v3.7.0'' then Some (File c)
                       else if p = zip_path_of [''Scripts''] ''v3.7.0''
                               \<or> prefix (extracted_dir_of [''Scripts''] ''v3.7.0'') p
                       then None
                       else fs demo_world p)"
    and prov: "has_fontmake (top_dir_of [''Scripts''] ''v3.7.0'') demo_archive \<longrightarrow>
            (\<exists>n \<in> fst ` set demo_archive. \<not> member_is_dir n
                \<and> member_parts n = [top_dir_of [''Scripts''] ''v3.7.0'', ''fontmake'']
                \<and> map_of (rev demo_archive) n = Some c)"
    by blast
  from prov has have "c = Bytes ''PK-fontmake-app''"
    by (auto simp: demo_archive_def member_is_dir_def)
  with fs have "fs w' = (\<lambda>p. if p = [''Scripts'', ''fontmake-3.7.0.pyz''] then Some (File (Bytes ''PK-fontmake-app''))
                     else if p = [''Scripts'', ''fontmake-3.7.0-cp311-cp311-macosx_11_0_universal2.zip'']
                             \<or> prefix [''Scripts'', ''fontmake-3.7.0-cp311-cp311-macosx_11_0_universal2''] p
                     then None
                     else demo_fs p)"
    by (simp add: demo_paths demo_world_def cong: if_cong)
  with run show ?thesis by blast
qed


section \<open>Properties of export-font-with-fontmake.py\<close>

lemma match_saving_line: "match_saving (''INFO:fontmake.font_project:Saving '' @ p) = Some p"
  by (simp add: match_saving_def strip_prefix_def)

subsection \<open>The reported paths\<close>

text \<open>
  Claim C9. For a text made of the lines \<open>ls\<close> (joined by newlines), \<open>output_paths\<close>
  is the list of the paths of the lines that match the pattern, in the order of the
  lines; a line \<open>INFO:fontmake.font_project:Saving p\<close> matches with path \<open>p\<close>; and when
  two lines match, both paths are returned in order and the path revealed is the second.
\<close>

theorem output_paths_in_order:
  assumes "ls \<noteq> []" and "\<forall>l \<in> set ls. CHR 0x0A \<notin> set l"
  shows "output_paths (join_with (CHR 0x0A) ls) = List.map_filter match_saving ls
       \<and> (List.map_filter match_saving ls = [p1, p2] \<longrightarrow>
            output_paths (join_with (CHR 0x0A) ls) = [p1, p2]
            \<and> revealed_path (join_with (CHR 0x0A) ls) = Some p2)
       \<and> match_saving (''INFO:fontmake.font_project:Saving '' @ p) = Some p"
proof -
  have ps: "output_paths (join_with (CHR 0x0A) ls) = List.map_filter match_saving ls"
    using assms by (simp add: output_paths_def split_on_join_with)
  have "List.map_filter match_saving ls = [p1, p2] \<Longrightarrow>
          revealed_path (join_with (CHR 0x0A) ls) = Some p2"
    by (simp add: revealed_path_def ps)
  with ps match_saving_line [of p] show ?thesis
    by presburger
qed

theorem output_paths_in_order_witness:
  "output_paths (''INFO:fontmake.font_project:Saving out/A-VF.ttf'' @ [CHR 0x0A]
                 @ ''INFO:fontTools.varLib:Building'' @ [CHR 0x0A]
                 @ ''INFO:fontmake.font_project:Saving out/B-VF.ttf'' @ [CHR 0x0A])
     = [''out/A-VF.ttf'', ''out/B-VF.ttf'']
   \<and> revealed_path (''INFO:fontmake.font_project:Saving out/A-VF.ttf'' @ [CHR 0x0A]
                 @ ''INFO:fontTools.varLib:Building'' @ [CHR 0x0A]
                 @ ''INFO:fontmake.font_project:Saving out/B-VF.ttf'' @ [CHR 0x0A])
     = Some ''out/B-VF.ttf''"
  using output_paths_in_order [of "[''INFO:fontmake.font_project:Saving out/A-VF.ttf'',
       ''INFO:fontTools.varLib:Building'', ''INFO:fontmake.font_project:Saving out/B-VF.ttf'', []]"
       "''out/A-VF.ttf''" "''out/B-VF.ttf''" "[]"]
  by (simp add: List.map_filter_def match_saving_def strip_prefix_def)

subsection \<open>The supervisor's capture\<close>

lemma read_lines_concat:
  "read_lines ls (window, captured) =
     (window @ concat ls, map_option (\<lambda>buf. buf @ concat ls) captured)"
  by (induction ls arbitrary: window captured) (auto simp: option.map_comp comp_def option.map_ident)

lemma poll_loop_drained: "poll_loop n [] st = st"
  by (induction n) (auto simp: prod.exhaust)

text \<open>
  A child found running at the first poll: the captured text is the concatenation of its
  lines, whatever the return code (without \<open>check\<close>).
\<close>

lemma run_subprocess_captures_running_child:
  assumes "popen command = Inr process" and "0 < polls_while_running process"
  shows "fst (run_subprocess_in_macro_window popen command False clear_log show_window True mw)
           = Inr \<lparr>args = command, returncode = exit_status process,
                  stdout = Some (concat (out_lines process)), stderr = Some []\<rparr>"
proof -
  obtain n where n: "polls_while_running process = Suc n"
    using assms(2) by (cases "polls_while_running process") auto
  show ?thesis
    using assms(1)
    by (simp add: run_subprocess_in_macro_window_def Let_def n poll_loop_drained read_lines_concat)
qed

text \<open>Without capture the result carries no text.\<close>

lemma run_subprocess_without_capture:
  assumes "popen command = Inr process"
  shows "fst (run_subprocess_in_macro_window popen command False clear_log show_window False mw)
           = Inr \<lparr>args = command, returncode = exit_status process, stdout = None, stderr = None\<rparr>"
  using assms
  by (simp add: run_subprocess_in_macro_window_def Let_def split: prod.splits)

text \<open>
  Claim C6 says that the captured text of a child that writes N lines and exits with
  code 0 is the concatenation of the N lines. The loop reads the pipe only inside
  \<open>while process.poll() is None\<close>: a child that has already terminated when the loop
  is entered is never read. Here the child wrote two lines and exited with code 0 before
  the first poll; the result has return code 0 and the empty text.
\<close>

theorem run_subprocess_loses_output_of_finished_child:
  "fst (run_subprocess_in_macro_window
          (\<lambda>command. Inr \<lparr>out_lines = [''INFO:fontmake.font_project:Saving a.ttf'' @ [CHR 0x0A],
                                         ''done'' @ [CHR 0x0A]],
                            exit_status = 0, polls_while_running = 0\<rparr>)
          [''python3'', ''fontmake.pyz''] False True True True \<lparr>log_text = [], shown = False\<rparr>)
     = Inr \<lparr>args = [''python3'', ''fontmake.pyz''], returncode = 0,
            stdout = Some [], stderr = Some []\<rparr>"
  by (simp add: run_subprocess_in_macro_window_def Let_def)

end
